theory Spec2Isabelle
  imports Complex_Main "HOL-Library.Word" "HOL-Library.AList" "HOL-Library.Char_ord"
    "HOL-Library.List_Lexorder"
begin

section \<open>Values\<close>

text \<open>
  The values that requests and request bodies are made of. A string is a list of characters,
  one per code unit of the source's string, for strings whose code units are below 256. A
  finite number is carried by the text that \<open>String(n)\<close> gives for it, which is also what
  \<open>JSON.stringify(n)\<close> gives and what \<open>JSON.parse\<close> reads back as the same number; so
  the number zero is \<open>JNum ''0''\<close>. An object is the list of its own properties in the order
  in which \<open>Object.keys\<close> lists them; the keys of an object are distinct. A key
  \<open>__proto__\<close> in the list is an own property of that name, as \<open>JSON.parse\<close> makes it.
\<close>

datatype jsvalue =
    JUndefined
  | JNull
  | JBool bool
  | JNum string
  | JStr string
  | JArr "jsvalue list"
  | JObj "(string \<times> jsvalue) list"

text \<open>\<open>!!v\<close>: the falsy values are \<open>undefined\<close>, \<open>null\<close>, \<open>false\<close>, zero and the empty
  string.\<close>

fun truthy :: "jsvalue \<Rightarrow> bool" where
  "truthy JUndefined = False"
| "truthy JNull = False"
| "truthy (JBool b) = b"
| "truthy (JNum n) = (n \<noteq> ''0'')"
| "truthy (JStr s) = (s \<noteq> [])"
| "truthy (JArr vs) = True"
| "truthy (JObj kvs) = True"

text \<open>\<open>typeof v === 'object'\<close>, which holds of \<open>null\<close>, of arrays and of objects.\<close>

fun typeof_object :: "jsvalue \<Rightarrow> bool" where
  "typeof_object JNull = True"
| "typeof_object (JArr vs) = True"
| "typeof_object (JObj kvs) = True"
| "typeof_object v = False"

text \<open>\<open>Array.prototype.join\<close> on an array of strings.\<close>

fun join :: "string \<Rightarrow> string list \<Rightarrow> string" where
  "join sep [] = []"
| "join sep [x] = x"
| "join sep (x # y # ys) = x @ sep @ join sep (y # ys)"

text \<open>Decimal digits of a natural number: the property names of an array are its indices
  written in decimal.\<close>

fun decimal :: "nat \<Rightarrow> string" where
  "decimal n =
     (if n < 10 then [char_of (48 + n)]
      else decimal (n div 10) @ [char_of (48 + n mod 10)])"

text \<open>\<open>Object.keys(v)\<close> paired with the values \<open>v[key]\<close>, for an object or an array.\<close>

fun own_entries :: "jsvalue \<Rightarrow> (string \<times> jsvalue) list" where
  "own_entries (JObj kvs) = kvs"
| "own_entries (JArr vs) = zip (map decimal [0..<length vs]) vs"
| "own_entries v = []"

subsection \<open>\<open>JSON.stringify\<close> and the copy \<open>JSON.parse(JSON.stringify(obj))\<close>\<close>

definition hex_lower :: "nat \<Rightarrow> char" where
  "hex_lower d = (if d < 10 then char_of (48 + d) else char_of (87 + d))"

text \<open>The escapes of \<open>JSON.stringify\<close> for a character of a string: the quotation mark, the
  backslash, and the control characters below U+0020.\<close>

definition json_escape :: "char \<Rightarrow> string" where
  "json_escape c =
     (if c = CHR 0x22 then [CHR 0x5C, CHR 0x22]
      else if c = CHR 0x5C then [CHR 0x5C, CHR 0x5C]
      else if c = CHR 0x08 then [CHR 0x5C, CHR ''b'']
      else if c = CHR 0x09 then [CHR 0x5C, CHR ''t'']
      else if c = CHR 0x0A then [CHR 0x5C, CHR ''n'']
      else if c = CHR 0x0C then [CHR 0x5C, CHR ''f'']
      else if c = CHR 0x0D then [CHR 0x5C, CHR ''r'']
      else if (of_char c :: nat) < 32
        then [CHR 0x5C, CHR ''u'', CHR ''0'', CHR ''0'',
              hex_lower ((of_char c :: nat) div 16), hex_lower ((of_char c :: nat) mod 16)]
      else [c])"

definition json_quote :: "string \<Rightarrow> string" where
  "json_quote s = [CHR 0x22] @ concat (map json_escape s) @ [CHR 0x22]"

text \<open>
  \<open>JSON.stringify\<close> with no indentation. A property whose value is \<open>undefined\<close> is left
  out of an object, and \<open>undefined\<close> in an array is written \<open>null\<close>. The properties of an
  object are written in the order in which the object lists them. (\<open>JSON.stringify(undefined)\<close>
  itself is \<open>undefined\<close>, not a string; \<open>signRequestObject\<close> never asks for it, and the
  equation for it here is never used.)
\<close>

fun JSON_stringify :: "jsvalue \<Rightarrow> string" where
  "JSON_stringify JUndefined = []"
| "JSON_stringify JNull = ''null''"
| "JSON_stringify (JBool b) = (if b then ''true'' else ''false'')"
| "JSON_stringify (JNum n) = n"
| "JSON_stringify (JStr s) = json_quote s"
| "JSON_stringify (JArr vs) =
     ''['' @ join '','' (map (\<lambda>v. if v = JUndefined then ''null'' else JSON_stringify v) vs) @ '']''"
| "JSON_stringify (JObj kvs) =
     ''{'' @ join '',''
        (map (\<lambda>kv. json_quote (fst kv) @ '':'' @ JSON_stringify (snd kv))
           (filter (\<lambda>kv. snd kv \<noteq> JUndefined) kvs)) @ ''}''"

text \<open>The deep copy \<open>JSON.parse(JSON.stringify(obj))\<close> as a function on values.\<close>

fun jsonCopy :: "jsvalue \<Rightarrow> jsvalue" where
  "jsonCopy (JArr vs) = JArr (map (\<lambda>v. if v = JUndefined then JNull else jsonCopy v) vs)"
| "jsonCopy (JObj kvs) =
     JObj (map (\<lambda>kv. (fst kv, jsonCopy (snd kv))) (filter (\<lambda>kv. snd kv \<noteq> JUndefined) kvs))"
| "jsonCopy v = v"

section \<open>Signing utilities (utils/tools.js)\<close>

definition EXCLUDE_FIELDS :: "string list" where
  "EXCLUDE_FIELDS =
     [''sign'', ''sign_type'', ''header'', ''refund_info'', ''openType'', ''raw_request'',
      ''biz_content'']"

definition NONCE_CHARS :: string where
  "NONCE_CHARS = ''ABCDEFGHIJKLMNOPQRSTUVWXYZ0123456789''"

definition DEFAULT_NONCE_LENGTH :: int where
  "DEFAULT_NONCE_LENGTH = 32"

text \<open>
  A thrown \<open>Error\<close> is \<open>Inl\<close> of its message. \<open>validateAndPrepareObject\<close> returns the
  properties of the copy that are left after those with value \<open>null\<close> have been deleted (the
  copy has none with value \<open>undefined\<close>).
\<close>

definition validateAndPrepareObject :: "jsvalue \<Rightarrow> string + (string \<times> jsvalue) list" where
  "validateAndPrepareObject obj =
     (if \<not> truthy obj \<or> \<not> typeof_object obj
        then Inl ''Invalid request object: must be a non-null object''
      else case obj of
        JArr vs \<Rightarrow> Inl ''Invalid request object: cannot be an array''
      | _ \<Rightarrow>
          Inr (filter (\<lambda>kv. snd kv \<noteq> JUndefined \<and> snd kv \<noteq> JNull)
                 (own_entries (jsonCopy obj))))"

text \<open>
  The assignment \<open>obj[key] = value\<close> on a plain object, with a value that is not
  \<open>undefined\<close>: it replaces the value of a key the object has and adds the key otherwise.
  The key \<open>__proto__\<close> is the exception: when the object has no own property of that name
  the assignment runs the setter inherited from \<open>Object.prototype\<close>, which may change the
  prototype and gives the object no own property. (A new key is put at the end of the list;
  an engine lists integer-like keys first, which makes no difference to what is read from
  the object by key.)
\<close>

definition assign :: "string \<Rightarrow> jsvalue \<Rightarrow> (string \<times> jsvalue) list \<Rightarrow> (string \<times> jsvalue) list" where
  "assign key v obj =
     (if key = ''__proto__'' \<and> map_of obj key = None then obj else AList.update key v obj)"

text \<open>
  \<open>flattenObjectForSigning\<close>: a copy of the object (made by spreading, which keeps every
  own property) without \<open>biz_content\<close>; then, when \<open>biz_content\<close> is truthy and of type
  object, each of its keys that is not excluded and whose value is neither \<open>undefined\<close>
  nor \<open>null\<close> is assigned in the copy.
\<close>

definition flattenObjectForSigning :: "(string \<times> jsvalue) list \<Rightarrow> (string \<times> jsvalue) list" where
  "flattenObjectForSigning requestObject =
     (let flattened = AList.delete ''biz_content'' requestObject in
      case map_of requestObject ''biz_content'' of
        None \<Rightarrow> flattened
      | Some bizContent \<Rightarrow>
          if truthy bizContent \<and> typeof_object bizContent
          then fold (\<lambda>kv fl.
                  if fst kv \<notin> set EXCLUDE_FIELDS \<and> snd kv \<noteq> JUndefined \<and> snd kv \<noteq> JNull
                  then assign (fst kv) (snd kv) fl else fl)
                 (own_entries bizContent) flattened
          else flattened)"

text \<open>The names that take part in the signature: the keys of the flattened object that are
  not excluded, sorted by \<open>Array.prototype.sort\<close> with no comparator, that is by code units.\<close>

definition fieldNames :: "(string \<times> jsvalue) list \<Rightarrow> string list" where
  "fieldNames flattenedObject =
     sort (filter (\<lambda>key. key \<notin> set EXCLUDE_FIELDS) (map fst flattenedObject))"

text \<open>\<open>typeof value === 'object' ? JSON.stringify(value) : String(value)\<close>.\<close>

fun stringValue :: "jsvalue \<Rightarrow> string" where
  "stringValue JUndefined = ''undefined''"
| "stringValue (JBool b) = (if b then ''true'' else ''false'')"
| "stringValue (JNum n) = n"
| "stringValue (JStr s) = s"
| "stringValue v = JSON_stringify v"

text \<open>\<open>flattenedObject[key]\<close>.\<close>

definition property :: "(string \<times> jsvalue) list \<Rightarrow> string \<Rightarrow> jsvalue" where
  "property obj key = (case map_of obj key of None \<Rightarrow> JUndefined | Some v \<Rightarrow> v)"

definition signParts :: "(string \<times> jsvalue) list \<Rightarrow> string list" where
  "signParts flattenedObject =
     map (\<lambda>key. key @ ''='' @ stringValue (property flattenedObject key))
       (fieldNames flattenedObject)"

text \<open>The sign string that \<open>signRequestObject\<close> builds from a request (its lines from
  \<open>validateAndPrepareObject\<close> to \<open>signParts.join('&')\<close>).\<close>

definition signOriginStr :: "jsvalue \<Rightarrow> string + string" where
  "signOriginStr requestObject =
     (case validateAndPrepareObject requestObject of
        Inl e \<Rightarrow> Inl e
      | Inr validatedObject \<Rightarrow>
          (let flattenedObject = flattenObjectForSigning validatedObject in
           if fieldNames flattenedObject = []
             then Inl ''No signable fields found in request object''
           else Inr (join ''&'' (signParts flattenedObject))))"


text \<open>
  The signing library (\<open>sign-util-lib\<close>) is not part of these sources. What its calls do
  in one run of \<open>signString\<close>, that is \<open>new Signature\<close>, \<open>init\<close>, \<open>updateString\<close>,
  \<open>sign\<close> and \<open>hextob64\<close>, is given as their outcome: \<open>Inl\<close> of the \<open>message\<close> of what
  they throw, or \<open>Inr\<close> of the base64 signature. The algorithm, which \<open>signString\<close> only
  hands to the library, is part of that outcome.
\<close>

definition signString :: "string + string \<Rightarrow> string \<Rightarrow> string \<Rightarrow> string + string" where
  "signString lib text privateKey =
     (case (if text = [] then Inl ''Text must be a non-empty string''
            else if privateKey = [] then Inl ''Private key must be a non-empty string''
            else lib) of
        Inl message \<Rightarrow> Inl (''Failed to sign string: '' @ message)
      | Inr base64Signature \<Rightarrow> Inr base64Signature)"

text \<open>\<open>signRequestObject\<close>: every error thrown on the way is caught and thrown again with
  the prefix \<open>Failed to sign request: \<close>.\<close>

definition signRequestObject :: "string + string \<Rightarrow> jsvalue \<Rightarrow> string \<Rightarrow> string + string" where
  "signRequestObject lib requestObject privateKey =
     (case (if \<not> truthy requestObject then Inl ''Request object is required''
            else if privateKey = [] then Inl ''Private key is required for signing''
            else case signOriginStr requestObject of
                   Inl message \<Rightarrow> Inl message
                 | Inr text \<Rightarrow> signString lib text privateKey) of
        Inl message \<Rightarrow> Inl (''Failed to sign request: '' @ message)
      | Inr signature \<Rightarrow> Inr signature)"

text \<open>
  \<open>verifySignature\<close>. Its three arguments are values of any type. \<open>lib\<close> is the outcome of
  the library calls in the \<open>try\<close> block (\<open>b64tohex\<close>, \<open>new Signature\<close>, \<open>init\<close>,
  \<open>updateString\<close>, \<open>verify\<close>): what they throw, or the boolean \<open>isValid\<close>. The handler
  of the \<open>catch\<close> block evaluates \<open>text.substring(0, 100)\<close> before it returns \<open>false\<close>;
  on a \<open>text\<close> that is not a string this throws a \<open>TypeError\<close>, which leaves the function.
  The result is \<open>Inr\<close> of the returned boolean or \<open>Inl\<close> of the message of the error that
  escapes.
\<close>

definition verifySignature :: "string + bool \<Rightarrow> jsvalue \<Rightarrow> jsvalue \<Rightarrow> jsvalue \<Rightarrow> string + bool" where
  "verifySignature lib text signature publicKey =
     (if \<not> truthy text \<or> \<not> truthy signature \<or> \<not> truthy publicKey then Inr False
      else case lib of
        Inr isValid \<Rightarrow> Inr isValid
      | Inl message \<Rightarrow>
          (case text of
             JStr s \<Rightarrow> Inr False
           | _ \<Rightarrow> Inl ''text.substring is not a function''))"

text \<open>
  \<open>createNonceStr\<close>. The argument is absent (\<open>None\<close>, the default length is used) or an
  integer. \<open>randomBytes\<close> is what \<open>crypto.randomBytes(length)\<close> does: it throws
  (\<open>None\<close>) or returns a buffer of bytes. \<open>draws i\<close> is the value of
  \<open>Math.floor(Math.random() * NONCE_CHARS.length)\<close> in round \<open>i\<close> of the fallback loop.
  Reading \<open>NONCE_CHARS[charIndex]\<close> or \<open>randomBytes[i]\<close> out of range gives \<open>undefined\<close>,
  which \<open>+=\<close> appends as the text \<open>undefined\<close>.
\<close>

definition charAt :: "nat \<Rightarrow> string" where
  "charAt index =
     (if index < length NONCE_CHARS then [NONCE_CHARS ! index] else ''undefined'')"

definition charIndex :: "8 word \<Rightarrow> nat" where
  "charIndex byte = unat byte mod length NONCE_CHARS"

definition createNonceStr :: "8 word list option \<Rightarrow> (nat \<Rightarrow> nat) \<Rightarrow> int option \<Rightarrow> string" where
  "createNonceStr randomBytes draws lengthArg =
     (let length' = (case lengthArg of None \<Rightarrow> DEFAULT_NONCE_LENGTH | Some n \<Rightarrow> n);
          fallbackNonce = concat (map (\<lambda>i. charAt (draws i)) [0..<nat length'])
      in if length' \<le> 0 then fallbackNonce
         else case randomBytes of
           None \<Rightarrow> fallbackNonce
         | Some bytes \<Rightarrow>
             concat (map (\<lambda>i. if i < length bytes then charAt (charIndex (bytes ! i))
                               else ''undefined'')
                       [0..<nat length']))"

section \<open>Token service (service/applyFabricTokenService.js)\<close>

text \<open>
  The module keeps one mutable variable, \<open>tokenCache\<close>, which is either \<open>null\<close> or an object
  \<open>{data, expiresAt}\<close>. Times are the values of \<open>Date.now()\<close>, in milliseconds. The field
  \<open>expiresIn\<close> of a token response is a number of seconds or is absent.
\<close>

record FabricTokenResponse =
  token :: string
  expiresIn :: "int option"

record TokenCache =
  data :: FabricTokenResponse
  expiresAt :: int

text \<open>
  The state of the module: the cache slot, and a counter of the requests
  \<open>POST /payment/v1/token\<close> issued so far (the counter is not in the source; it records the
  calls of \<open>fabricApiClient.post\<close>).
\<close>

record service =
  tokenCache :: "TokenCache option"
  posts :: nat

text \<open>
  What the awaited \<open>fabricApiClient.post\<close> settles to: a rejection carrying
  \<open>error.message\<close>, or a response whose \<open>data\<close> may be missing.
\<close>

datatype post_result = Rejected string | Resolved "FabricTokenResponse option"

definition isTokenValid :: "int \<Rightarrow> TokenCache option \<Rightarrow> bool" where
  "isTokenValid now cache =
     (case cache of
        None \<Rightarrow> False
      | Some c \<Rightarrow> (let bufferSeconds = 30 in now < expiresAt c - bufferSeconds * 1000))"

definition clearTokenCache :: "service \<Rightarrow> service" where
  "clearTokenCache s = s\<lparr>tokenCache := None\<rparr>"

definition hasValidToken :: "int \<Rightarrow> service \<Rightarrow> bool" where
  "hasValidToken now s = isTokenValid now (tokenCache s)"

definition getCachedToken :: "service \<Rightarrow> FabricTokenResponse option" where
  "getCachedToken s = (case tokenCache s of None \<Rightarrow> None | Some c \<Rightarrow> Some (data c))"

text \<open>
  \<open>requestNewToken\<close> after its \<open>await\<close>: a rejection is logged and re-thrown; a response with
  no data or with a falsy \<open>token\<close> (the empty string) throws
  \<open>Invalid token response: missing token field\<close>. \<open>Inl\<close> carries the message of the error.
\<close>

definition requestNewToken :: "post_result \<Rightarrow> string + FabricTokenResponse" where
  "requestNewToken r =
     (case r of
        Rejected msg \<Rightarrow> Inl msg
      | Resolved None \<Rightarrow> Inl ''Invalid token response: missing token field''
      | Resolved (Some tokenData) \<Rightarrow>
          if token tokenData = [] then Inl ''Invalid token response: missing token field''
          else Inr tokenData)"

text \<open>
  \<open>applyFabricToken\<close> is an \<open>async\<close> function with one \<open>await\<close>. The part before the
  \<open>await\<close> runs synchronously when the function is called: it returns the cached data
  when the cache is valid at \<open>now\<close>, and otherwise issues the POST. \<open>None\<close> as the first
  component means that the call is suspended, waiting for the POST.
\<close>

definition applyFabricToken_begin ::
  "int \<Rightarrow> service \<Rightarrow> FabricTokenResponse option \<times> service" where
  "applyFabricToken_begin now s =
     (case tokenCache s of
        Some c \<Rightarrow>
          if isTokenValid now (Some c) then (Some (data c), s)
          else (None, s\<lparr>posts := posts s + 1\<rparr>)
      | None \<Rightarrow> (None, s\<lparr>posts := posts s + 1\<rparr>))"

text \<open>
  The part after the \<open>await\<close>, run when the POST has settled to \<open>r\<close>, with \<open>now\<close> the
  value of \<open>Date.now()\<close> at that moment. \<open>expiresIn || 3600\<close> takes 3600 for an absent field
  and for 0.
\<close>

definition applyFabricToken_settle ::
  "int \<Rightarrow> post_result \<Rightarrow> service \<Rightarrow> (string + FabricTokenResponse) \<times> service" where
  "applyFabricToken_settle now r s =
     (case requestNewToken r of
        Inr tokenData \<Rightarrow>
          (let expiresIn' = (case expiresIn tokenData of
                               None \<Rightarrow> 3600
                             | Some n \<Rightarrow> if n = 0 then 3600 else n)
           in (Inr tokenData,
               s\<lparr>tokenCache := Some \<lparr>data = tokenData, expiresAt = now + expiresIn' * 1000\<rparr>\<rparr>))
      | Inl msg \<Rightarrow>
          (Inl (''Failed to apply Fabric token: '' @ msg), clearTokenCache s))"

text \<open>
  One call run to its end with no other call in between: \<open>now1\<close> is the time of the validity
  check, \<open>r\<close> what the POST settles to (looked at only on a miss) and \<open>now2\<close> the time at
  which the answer is cached.
\<close>

definition applyFabricToken ::
  "int \<Rightarrow> post_result \<Rightarrow> int \<Rightarrow> service \<Rightarrow> (string + FabricTokenResponse) \<times> service" where
  "applyFabricToken now1 r now2 s =
     (case applyFabricToken_begin now1 s of
        (Some d, s') \<Rightarrow> (Inr d, s')
      | (None, s') \<Rightarrow> applyFabricToken_settle now2 r s')"

text \<open>
  Several calls in flight. The runtime is single-threaded: the synchronous part of a call
  runs without interruption, and the continuation of a suspended call runs when its POST has
  settled. An execution is therefore a sequence of two kinds of events.
\<close>

datatype event = Invoke int | Settle int post_result

fun step :: "event \<Rightarrow> service \<Rightarrow> service" where
  "step (Invoke now) s = snd (applyFabricToken_begin now s)"
| "step (Settle now r) s = snd (applyFabricToken_settle now r s)"

fun run :: "event list \<Rightarrow> service \<Rightarrow> service" where
  "run [] s = s"
| "run (e # es) s = run es (step e s)"

section \<open>Built-in functions used by the controllers\<close>

text \<open>
  \<open>encodeURIComponent\<close> on a string whose code units are below 256: the unreserved
  characters stay, every other character is replaced by the escapes \<open>%XX\<close> of its UTF-8
  bytes (one byte below 128, two from 128 on), with upper-case hexadecimal digits.
\<close>

definition hex_upper :: "nat \<Rightarrow> char" where
  "hex_upper d = (if d < 10 then char_of (48 + d) else char_of (55 + d))"

definition uri_unreserved :: "char \<Rightarrow> bool" where
  "uri_unreserved c \<longleftrightarrow>
     c \<in> set ''ABCDEFGHIJKLMNOPQRSTUVWXYZabcdefghijklmnopqrstuvwxyz0123456789-_.!~*()'' \<or>
     c = CHR 0x27"

definition percent :: "nat \<Rightarrow> string" where
  "percent byte = [CHR ''%'', hex_upper (byte div 16), hex_upper (byte mod 16)]"

definition encodeURIComponent :: "string \<Rightarrow> string" where
  "encodeURIComponent s =
     concat (map (\<lambda>c. if uri_unreserved c then [c]
                       else if (of_char c :: nat) < 128 then percent (of_char c)
                       else percent (192 + (of_char c :: nat) div 64) @
                            percent (128 + (of_char c :: nat) mod 64)) s)"

text \<open>
  The result of \<open>parseFloat\<close>. A finite result is kept as the exact value \<open>v\<close> of the
  decimal literal that was read; the number the source then holds is the double nearest to
  \<open>v\<close>, ties going to the even mantissa. The two comparisons that the source makes on that
  double are stated on \<open>v\<close>. The smallest positive double is \<open>1 / 2 ^ 1074\<close>, so the double is at
  most 0 exactly when \<open>v\<close> is at most half of that. The doubles next to 1000000 are
  \<open>1 / 2 ^ 33\<close> apart and 1000000 has an even mantissa, so the double is greater than 1000000
  exactly when \<open>v\<close> is greater than 1000000 plus half of that (a value too large for a double
  becomes \<open>Infinity\<close>, which is greater too).
\<close>

datatype jsnumber = NaN | Infinity bool | Finite rat

definition double_le_0 :: "rat \<Rightarrow> bool" where
  "double_le_0 v \<longleftrightarrow> v \<le> 1 / 2 ^ 1075"

definition double_gt_1000000 :: "rat \<Rightarrow> bool" where
  "double_gt_1000000 v \<longleftrightarrow> v > 1000000 + 1 / 2 ^ 34"

definition is_space :: "char \<Rightarrow> bool" where
  "is_space c \<longleftrightarrow> (of_char c :: nat) \<in> {9, 10, 11, 12, 13, 32, 160}"

definition is_digit :: "char \<Rightarrow> bool" where
  "is_digit c \<longleftrightarrow> 48 \<le> (of_char c :: nat) \<and> (of_char c :: nat) \<le> 57"

definition digits_value :: "string \<Rightarrow> nat" where
  "digits_value ds = foldl (\<lambda>n c. 10 * n + ((of_char c :: nat) - 48)) 0 ds"

definition scale10 :: "rat \<Rightarrow> int \<Rightarrow> rat" where
  "scale10 m e = (if 0 \<le> e then m * 10 ^ nat e else m / 10 ^ nat (- e))"

text \<open>An optional sign in front of the rest of the text: whether it is a minus, and the
  rest.\<close>

fun leading_sign :: "string \<Rightarrow> bool \<times> string" where
  "leading_sign [] = (False, [])"
| "leading_sign (c # cs) =
     (if c = CHR ''-'' then (True, cs) else if c = CHR ''+'' then (False, cs) else (False, c # cs))"

text \<open>The exponent part at the front of the text, when there is a complete one (\<open>e\<close> or
  \<open>E\<close>, an optional sign, at least one digit); 0 otherwise.\<close>

fun exponent_part :: "string \<Rightarrow> int" where
  "exponent_part [] = 0"
| "exponent_part (c # cs) =
     (if c = CHR ''e'' \<or> c = CHR ''E'' then
        (let (negative, rest) = leading_sign cs; ds = takeWhile is_digit rest
         in if ds = [] then 0
            else if negative then - int (digits_value ds) else int (digits_value ds))
      else 0)"

text \<open>\<open>parseFloat\<close> on a string: leading white space is skipped, and the longest prefix of
  the rest that is a decimal literal is read; \<open>NaN\<close> when there is none.\<close>

definition parseFloat_string :: "string \<Rightarrow> jsnumber" where
  "parseFloat_string s =
     (let (negative, body) = leading_sign (dropWhile is_space s) in
      if take 8 body = ''Infinity'' then Infinity negative
      else
        let intDigits = takeWhile is_digit body;
            afterInt = dropWhile is_digit body;
            fracDigits = (case afterInt of
                            [] \<Rightarrow> []
                          | c # cs \<Rightarrow> if c = CHR ''.'' then takeWhile is_digit cs else []);
            afterFrac = (case afterInt of
                           [] \<Rightarrow> []
                         | c # cs \<Rightarrow> if c = CHR ''.'' then dropWhile is_digit cs else afterInt)
        in if intDigits = [] \<and> fracDigits = [] then NaN
           else
             let magnitude =
                   scale10 (of_nat (digits_value (intDigits @ fracDigits)))
                     (exponent_part afterFrac - int (length fracDigits))
             in Finite (if negative then - magnitude else magnitude))"

text \<open>\<open>String(v)\<close>, which \<open>parseFloat\<close> applies to its argument first.\<close>

fun String_of :: "jsvalue \<Rightarrow> string" where
  "String_of JUndefined = ''undefined''"
| "String_of JNull = ''null''"
| "String_of (JBool b) = (if b then ''true'' else ''false'')"
| "String_of (JNum n) = n"
| "String_of (JStr s) = s"
| "String_of (JArr vs) =
     join '','' (map (\<lambda>v. if v = JUndefined \<or> v = JNull then [] else String_of v) vs)"
| "String_of (JObj kvs) = ''[object Object]''"

definition parseFloat :: "jsvalue \<Rightarrow> jsnumber" where
  "parseFloat v = parseFloat_string (String_of v)"

section \<open>Order service (services/orderService) and mandate order controller\<close>

text \<open>The settings of \<open>config\<close> that these functions read.\<close>

record config =
  merchantAppId :: string
  merchantCode :: string
  privateKey :: string

text \<open>
  \<open>createRawRequestString\<close> of the mandate order controller. \<open>nonce_str\<close> and
  \<open>timestamp\<close> are the results of \<open>tools.createNonceStr()\<close> and \<open>tools.createTimeStamp()\<close>,
  and \<open>lib\<close> is the outcome of the signing library when the request data is signed.
\<close>

definition rawRequestData :: "config \<Rightarrow> string \<Rightarrow> string \<Rightarrow> string \<Rightarrow> jsvalue" where
  "rawRequestData cfg nonce_str timestamp prepayId =
     JObj [(''appid'', JStr (merchantAppId cfg)),
           (''merch_code'', JStr (merchantCode cfg)),
           (''nonce_str'', JStr nonce_str),
           (''prepay_id'', JStr prepayId),
           (''timestamp'', JStr timestamp)]"

definition mandate_createRawRequestString ::
  "config \<Rightarrow> string + string \<Rightarrow> string \<Rightarrow> string \<Rightarrow> string \<Rightarrow> string + string" where
  "mandate_createRawRequestString cfg lib nonce_str timestamp prepayId =
     (case signRequestObject lib (rawRequestData cfg nonce_str timestamp prepayId) (privateKey cfg) of
        Inl message \<Rightarrow> Inl message
      | Inr signature \<Rightarrow>
          Inr (join ''&''
                 [''appid='' @ merchantAppId cfg,
                  ''merch_code='' @ merchantCode cfg,
                  ''nonce_str='' @ nonce_str,
                  ''prepay_id='' @ prepayId,
                  ''timestamp='' @ timestamp,
                  ''sign='' @ signature,
                  ''sign_type=SHA256WithRSA'']))"

text \<open>\<open>createRawRequestString\<close> of the order service.\<close>

definition order_createRawRequestString ::
  "config \<Rightarrow> string + string \<Rightarrow> string \<Rightarrow> string \<Rightarrow> string \<Rightarrow> string + string" where
  "order_createRawRequestString cfg lib nonce_str timestamp prepayId =
     (case signRequestObject lib (rawRequestData cfg nonce_str timestamp prepayId) (privateKey cfg) of
        Inl message \<Rightarrow> Inl message
      | Inr signature \<Rightarrow>
          Inr (join ''&''
                 [''appid='' @ encodeURIComponent (merchantAppId cfg),
                  ''merch_code='' @ encodeURIComponent (merchantCode cfg),
                  ''nonce_str='' @ encodeURIComponent nonce_str,
                  ''prepay_id='' @ encodeURIComponent prepayId,
                  ''timestamp='' @ encodeURIComponent timestamp,
                  ''sign='' @ encodeURIComponent signature,
                  ''sign_type=SHA256WithRSA'']))"

text \<open>\<open>validateOrderRequest\<close> of the order service. \<open>title.trim() === ''\<close> holds when the
  title is white space only.\<close>

record validation =
  isValid :: bool
  errors :: "string list"

definition title_errors :: "jsvalue \<Rightarrow> string list" where
  "title_errors title =
     (case title of
        JStr s \<Rightarrow>
          if s = [] \<or> dropWhile is_space s = [] then [''Valid title is required'']
          else if length s > 256 then [''Title is too long (max 256 characters)'']
          else []
      | _ \<Rightarrow> [''Valid title is required''])"

definition amount_errors :: "jsvalue \<Rightarrow> string list" where
  "amount_errors amount =
     (if \<not> truthy amount \<and> amount \<noteq> JNum ''0'' then [''Amount is required'']
      else case parseFloat amount of
        NaN \<Rightarrow> [''Amount must be a valid number'']
      | Infinity negative \<Rightarrow>
          if negative then [''Amount must be greater than 0'']
          else [''Amount exceeds maximum limit'']
      | Finite parsedAmount \<Rightarrow>
          if double_le_0 parsedAmount then [''Amount must be greater than 0'']
          else if double_gt_1000000 parsedAmount then [''Amount exceeds maximum limit'']
          else [])"

definition validateOrderRequest :: "jsvalue \<Rightarrow> jsvalue \<Rightarrow> validation" where
  "validateOrderRequest title amount =
     (let errors = title_errors title @ amount_errors amount
      in \<lparr>isValid = (errors = []), errors = errors\<rparr>)"

text \<open>
  \<open>createOrder\<close> of the order service, on the fields \<open>title\<close> and \<open>amount\<close> of the
  request body. What it awaits or calls outside this module is given
  by its outcome: \<open>tokenOutcome\<close> for \<open>applyFabricTokenService()\<close> and
  \<open>orderOutcome\<close> for \<open>exports.requestCreateOrder(...)\<close>, each \<open>Inl\<close> of the thrown
  error (its \<open>message\<close>, and its \<open>code\<close> when it has one) or \<open>Inr\<close> of the value;
  \<open>rawLib\<close>, \<open>rawNonce\<close> and \<open>rawTimestamp\<close> for the signing library, the nonce and the
  time stamp inside \<open>createRawRequestString\<close>. \<open>requestId\<close>, \<open>responseTimestamp\<close> and
  \<open>processedAt\<close> are the nonce made on entry, the time stamp of the response and the ISO
  date of the response. (\<open>prepay_id\<close> is a string, as the response type documents it; it
  is handed on as its text.)
\<close>

record environment =
  settings :: config
  requestId :: string
  responseTimestamp :: string
  processedAt :: string
  tokenOutcome :: "(string \<times> string option) + jsvalue"
  orderOutcome :: "(string \<times> string option) + jsvalue"
  rawLib :: "string + string"
  rawNonce :: string
  rawTimestamp :: string

text \<open>The calls that reach the signer, directly or through the token-guarded order request:
  \<open>requestCreateOrder\<close> signs the pre-order request before it posts it, and
  \<open>createRawRequestString\<close> signs the raw request.\<close>

datatype call = ApplyFabricToken | RequestCreateOrder | CreateRawRequestString

record response =
  status :: nat
  body :: "(string \<times> jsvalue) list"

text \<open>\<open>v.key\<close> on a value that is neither \<open>null\<close> nor \<open>undefined\<close> (on those it throws
  a \<open>TypeError\<close>, which \<open>createOrder\<close> below writes out where it can happen), and
  \<open>a || b\<close>.\<close>

definition member :: "jsvalue \<Rightarrow> string \<Rightarrow> jsvalue" where
  "member v key = (case v of JObj kvs \<Rightarrow> property kvs key | _ \<Rightarrow> JUndefined)"

definition or_else :: "jsvalue \<Rightarrow> jsvalue \<Rightarrow> jsvalue" where
  "or_else a b = (if truthy a then a else b)"

definition internalError :: "environment \<Rightarrow> string \<times> string option \<Rightarrow> response" where
  "internalError env error =
     \<lparr>status = 500,
      body = [(''result_code'', JStr ''INTERNAL_ERROR''),
              (''result_msg'', JStr ''An internal server error occurred''),
              (''error_code'', JStr (case snd error of
                                      None \<Rightarrow> ''UNKNOWN_ERROR''
                                    | Some code \<Rightarrow> if code = [] then ''UNKNOWN_ERROR'' else code)),
              (''error_msg'', JStr (fst error)),
              (''timestamp'', JStr (responseTimestamp env)),
              (''request_id'', JStr (requestId env))]\<rparr>"

definition createOrder :: "environment \<Rightarrow> jsvalue \<Rightarrow> jsvalue \<Rightarrow> response \<times> call list" where
  "createOrder env title amount =
     (let validation = validateOrderRequest title amount in
      if \<not> isValid validation then
        (\<lparr>status = 400,
          body = [(''result_code'', JStr ''VALIDATION_ERROR''),
                  (''result_msg'', JStr ''Invalid request parameters''),
                  (''errors'', JArr (map JStr (errors validation))),
                  (''timestamp'', JStr (responseTimestamp env)),
                  (''request_id'', JStr (requestId env))]\<rparr>, [])
      else case tokenOutcome env of
        Inl error \<Rightarrow> (internalError env error, [ApplyFabricToken])
      | Inr fabricTokenResult \<Rightarrow>
          if \<not> truthy fabricTokenResult \<or> \<not> truthy (member fabricTokenResult ''token'') then
            (internalError env (''Failed to obtain Fabric API token'', None), [ApplyFabricToken])
          else (case orderOutcome env of
            Inl error \<Rightarrow> (internalError env error, [ApplyFabricToken, RequestCreateOrder])
          | Inr createOrderResult \<Rightarrow>
              if createOrderResult = JUndefined \<or> createOrderResult = JNull then
                (internalError env
                   (''Cannot read properties of '' @ String_of createOrderResult @
                    '' (reading '' @ [CHR 0x27] @ ''result_code'' @ [CHR 0x27] @ '')'', None),
                 [ApplyFabricToken, RequestCreateOrder])
              else if member createOrderResult ''result_code'' \<noteq> JStr ''0'' \<or>
                 \<not> truthy (member createOrderResult ''biz_content'') \<or>
                 \<not> truthy (member (member createOrderResult ''biz_content'') ''prepay_id'')
              then
                (\<lparr>status = 400,
                  body = [(''result_code'',
                             or_else (member createOrderResult ''result_code'') (JStr ''ORDER_FAILED'')),
                          (''result_msg'',
                             or_else (member createOrderResult ''result_msg'')
                               (JStr ''Order creation failed'')),
                          (''error_code'', member createOrderResult ''error_code''),
                          (''error_msg'', member createOrderResult ''error_msg''),
                          (''timestamp'', JStr (responseTimestamp env)),
                          (''request_id'', JStr (requestId env))]\<rparr>,
                 [ApplyFabricToken, RequestCreateOrder])
              else
                (let prepayId = member (member createOrderResult ''biz_content'') ''prepay_id'';
                     merchantOrderId =
                       member (member createOrderResult ''biz_content'') ''merch_order_id''
                 in (case order_createRawRequestString (settings env) (rawLib env) (rawNonce env)
                           (rawTimestamp env) (String_of prepayId) of
                      Inl message \<Rightarrow>
                        (internalError env (message, None),
                         [ApplyFabricToken, RequestCreateOrder, CreateRawRequestString])
                    | Inr rawRequest \<Rightarrow>
                        (\<lparr>status = 200,
                          body = [(''result_code'', JStr ''0''),
                                  (''result_msg'', JStr ''Order created successfully''),
                                  (''rawRequest'', JStr rawRequest),
                                  (''prepay_id'', prepayId),
                                  (''merch_order_id'', merchantOrderId),
                                  (''request_id'', JStr (requestId env)),
                                  (''timestamp'', JStr (responseTimestamp env)),
                                  (''processed_at'', JStr (processedAt env))]\<rparr>,
                         [ApplyFabricToken, RequestCreateOrder, CreateRawRequestString])))))"

section \<open>Properties of the token service\<close>

text \<open>A call that finds no valid token issues one POST and is suspended; a call that finds a
  valid token returns its data and leaves the state alone.\<close>

lemma begin_miss:
  "\<not> isTokenValid now (tokenCache s) \<Longrightarrow>
     applyFabricToken_begin now s = (None, s\<lparr>posts := Suc (posts s)\<rparr>)"
  by (cases "tokenCache s") (simp_all add: applyFabricToken_begin_def)


lemma run_invoke_misses:
  "\<forall>t\<in>set ts. \<not> isTokenValid t (tokenCache s) \<Longrightarrow>
     run (map Invoke ts) s = s\<lparr>posts := posts s + length ts\<rparr>"
proof (induction ts arbitrary: s)
  case Nil
  then show ?case by simp
next
  case (Cons t ts)
  then show ?case by (simp add: begin_miss)
qed

text \<open>
  Claim C1, as the code has it. The claim says that \<open>N\<close> simultaneous calls which all find
  the cache empty or expired cause exactly one POST to the token endpoint. The source has no
  in-flight promise that later callers could share: the synchronous part of every call tests
  \<open>tokenCache\<close>, which no call has written yet, and issues its own POST. So calls started at
  the times \<open>ts\<close>, none of which finds a valid token, and with no settlement in between,
  issue \<open>length ts\<close> POSTs, one each, and leave the cache slot as it was.
\<close>

theorem applyFabricToken_no_coalescing:
  "\<forall>t\<in>set ts. \<not> isTokenValid t (tokenCache s) \<Longrightarrow>
     posts (run (map Invoke ts) s) = posts s + length ts \<and>
     tokenCache (run (map Invoke ts) s) = tokenCache s"
  by (simp add: run_invoke_misses)

text \<open>Three calls at time 0 on an empty cache: three POSTs.\<close>

theorem applyFabricToken_no_coalescing_witness:
  "\<not> isTokenValid 0 (tokenCache \<lparr>tokenCache = None, posts = 0\<rparr>) \<and>
   posts (run (map Invoke [0, 0, 0]) \<lparr>tokenCache = None, posts = 0\<rparr>) = 3"
  using applyFabricToken_no_coalescing [of "[0, 0, 0]" "\<lparr>tokenCache = None, posts = 0\<rparr>"]
  by (simp add: isTokenValid_def)

text \<open>
  Claim C1 as stated fails for \<open>N = 2\<close>: two calls start on an empty cache before either
  POST has settled, then both settle; the number of POSTs issued is not one.
\<close>

theorem applyFabricToken_single_fetch_counterexample:
  "posts (run [Invoke 0, Invoke 0,
               Settle 5 (Resolved (Some \<lparr>token = ''t1'', expiresIn = Some 100\<rparr>)),
               Settle 6 (Resolved (Some \<lparr>token = ''t2'', expiresIn = Some 100\<rparr>))]
            \<lparr>tokenCache = None, posts = 0\<rparr>) \<noteq> 1"
  by (simp add: applyFabricToken_begin_def applyFabricToken_settle_def requestNewToken_def)



text \<open>
  Claim C6. When the fetch fails (the POST is rejected, or its response has no token), the
  continuation of the call empties the cache slot whatever it held, and the call throws an
  error whose message is \<open>Failed to apply Fabric token: \<close> followed by the message of the
  underlying error. Afterwards \<open>hasValidToken\<close> is false at every time, no token is cached,
  and the next call issues a POST.
\<close>

theorem applyFabricToken_failure_clears_cache:
  assumes fail: "requestNewToken r = Inl msg"
  shows "applyFabricToken_settle tstore r s =
           (Inl (''Failed to apply Fabric token: '' @ msg), s\<lparr>tokenCache := None\<rparr>) \<and>
         (\<not> isTokenValid tcheck (tokenCache s) \<longrightarrow>
            applyFabricToken tcheck r tstore s =
              (Inl (''Failed to apply Fabric token: '' @ msg),
               s\<lparr>tokenCache := None, posts := Suc (posts s)\<rparr>)) \<and>
         (\<forall>t. \<not> hasValidToken t (s\<lparr>tokenCache := None\<rparr>) \<and>
              getCachedToken (s\<lparr>tokenCache := None\<rparr>) = None \<and>
              applyFabricToken_begin t (s\<lparr>tokenCache := None\<rparr>) =
                (None, s\<lparr>tokenCache := None, posts := Suc (posts s)\<rparr>))"
proof -
  have settle: "applyFabricToken_settle tstore r s' =
      (Inl (''Failed to apply Fabric token: '' @ msg), s'\<lparr>tokenCache := None\<rparr>)" for s'
    using fail by (simp add: applyFabricToken_settle_def clearTokenCache_def)
  have whole: "applyFabricToken tcheck r tstore s =
      (Inl (''Failed to apply Fabric token: '' @ msg),
       s\<lparr>tokenCache := None, posts := Suc (posts s)\<rparr>)"
    if "\<not> isTokenValid tcheck (tokenCache s)"
    using that by (simp add: applyFabricToken_def begin_miss settle)
  have after: "\<not> hasValidToken t (s\<lparr>tokenCache := None\<rparr>) \<and>
      getCachedToken (s\<lparr>tokenCache := None\<rparr>) = None \<and>
      applyFabricToken_begin t (s\<lparr>tokenCache := None\<rparr>) =
        (None, s\<lparr>tokenCache := None, posts := Suc (posts s)\<rparr>)" for t
    by (simp add: hasValidToken_def getCachedToken_def isTokenValid_def
        applyFabricToken_begin_def)
  show ?thesis
    using whole after by (simp add: settle)
qed

text \<open>A timeout while an expired token is still in the slot.\<close>

theorem applyFabricToken_failure_clears_cache_witness:
  "requestNewToken (Rejected ''timeout of 10000ms exceeded'') = Inl ''timeout of 10000ms exceeded'' \<and>
   \<not> isTokenValid 500000 (Some \<lparr>data = \<lparr>token = ''old'', expiresIn = Some 100\<rparr>, expiresAt = 101000\<rparr>) \<and>
   applyFabricToken 500000 (Rejected ''timeout of 10000ms exceeded'') 510000
       \<lparr>tokenCache = Some \<lparr>data = \<lparr>token = ''old'', expiresIn = Some 100\<rparr>, expiresAt = 101000\<rparr>,
        posts = 1\<rparr> =
     (Inl ''Failed to apply Fabric token: timeout of 10000ms exceeded'',
      \<lparr>tokenCache = None, posts = 2\<rparr>)"
proof -
  have h: "requestNewToken (Rejected ''timeout of 10000ms exceeded'') =
      Inl ''timeout of 10000ms exceeded''"
    by (simp add: requestNewToken_def)
  show ?thesis
    using applyFabricToken_failure_clears_cache [OF h, where tcheck = 500000 and tstore = 510000
        and s = "\<lparr>tokenCache = Some \<lparr>data = \<lparr>token = ''old'', expiresIn = Some 100\<rparr>,
                    expiresAt = 101000\<rparr>, posts = 1\<rparr>"]
    by (simp add: h isTokenValid_def)
qed

section \<open>Properties of the sign string\<close>

subsection \<open>Association lists with distinct keys\<close>

lemma jsonCopy_eq_JNull [simp]: "jsonCopy v = JNull \<longleftrightarrow> v = JNull"
  by (cases v) simp_all

lemma jsonCopy_eq_JUndefined [simp]: "jsonCopy v = JUndefined \<longleftrightarrow> v = JUndefined"
  by (cases v) simp_all

lemma lookup_filter:
  assumes "distinct (map fst al)"
  shows "map_of (filter keep al) key =
           (case map_of al key of
              Some v \<Rightarrow> (if keep (key, v) then Some v else None)
            | None \<Rightarrow> None)"
  using assms
proof (induction al)
  case Nil
  then show ?case by simp
next
  case (Cons entry al)
  obtain a b where entry: "entry = (a, b)" by (cases entry)
  show ?case
  proof (cases "a = key")
    case True
    with Cons.prems entry have "map_of al key = None"
      by (simp add: map_of_eq_None_iff)
    with Cons True entry show ?thesis by simp
  next
    case False
    with Cons entry show ?thesis by simp
  qed
qed

lemma map_of_map_snd:
  "map_of (map (\<lambda>kv. (fst kv, f (snd kv))) xs) k = map_option f (map_of xs k)"
  by (induction xs) auto

lemma keys_map_snd [simp]: "map fst (map (\<lambda>kv. (fst kv, f (snd kv))) xs) = map fst xs"
  by (induction xs) auto

lemma keys_map_snd_comp [simp]: "fst \<circ> (\<lambda>kv. (fst kv, f (snd kv))) = fst"
  by (simp add: fun_eq_iff)


lemma assign_lookup:
  "map_of (assign key v obj) k =
     (if key = ''__proto__'' \<and> map_of obj ''__proto__'' = None then map_of obj k
      else if k = key then Some v else map_of obj k)"
  by (auto simp: assign_def update_conv')

lemma assign_keeps_proto:
  "map_of (assign key v obj) ''__proto__'' = None \<longleftrightarrow> map_of obj ''__proto__'' = None"
  by (simp add: assign_lookup)

lemma distinct_assign: "distinct (map fst obj) \<Longrightarrow> distinct (map fst (assign key v obj))"
  by (simp add: assign_def distinct_update)

text \<open>Assigning the entries \<open>es\<close> that pass \<open>P\<close>, in order: the last assignment to a key
  wins, and an entry \<open>__proto__\<close> counts only when the object had that key at the start.\<close>

lemma map_of_fold_assign:
  "map_of (fold (\<lambda>kv fl. if P kv then assign (fst kv) (snd kv) fl else fl) es fl) k =
     (case map_of (rev (filter (\<lambda>kv. P kv \<and>
                                  (fst kv \<noteq> ''__proto__'' \<or> map_of fl ''__proto__'' \<noteq> None)) es)) k of
        None \<Rightarrow> map_of fl k
      | Some v \<Rightarrow> Some v)"
proof (induction es arbitrary: fl)
  case Nil
  then show ?case by simp
next
  case (Cons e es)
  obtain key v where e: "e = (key, v)" by (cases e)
  show ?case
  proof (cases "P e")
    case False
    with Cons show ?thesis by simp
  next
    case True
    have keep: "(map_of (assign key v fl) ''__proto__'' \<noteq> None) = (map_of fl ''__proto__'' \<noteq> None)"
      by (simp add: assign_keeps_proto)
    from True e have "map_of (fold (\<lambda>kv fl. if P kv then assign (fst kv) (snd kv) fl else fl) (e # es) fl) k =
        map_of (fold (\<lambda>kv fl. if P kv then assign (fst kv) (snd kv) fl else fl) es (assign key v fl)) k"
      by simp
    also have "\<dots> =
        (case map_of (rev (filter (\<lambda>kv. P kv \<and>
                   (fst kv \<noteq> ''__proto__'' \<or> map_of fl ''__proto__'' \<noteq> None)) es)) k of
           None \<Rightarrow> map_of (assign key v fl) k
         | Some v \<Rightarrow> Some v)"
      by (simp only: Cons.IH keep)
    also have "\<dots> =
        (case map_of (rev (filter (\<lambda>kv. P kv \<and>
                   (fst kv \<noteq> ''__proto__'' \<or> map_of fl ''__proto__'' \<noteq> None)) (e # es))) k of
           None \<Rightarrow> map_of fl k
         | Some v \<Rightarrow> Some v)"
      using True e by (auto simp: assign_lookup map_add_def split: option.splits)
    finally show ?thesis .
  qed
qed

lemma distinct_fold_assign:
  "distinct (map fst fl) \<Longrightarrow>
     distinct (map fst (fold (\<lambda>kv fl. if P kv then assign (fst kv) (snd kv) fl else fl) es fl))"
  by (induction es arbitrary: fl) (simp_all add: distinct_assign)


subsection \<open>What the prepared and the flattened object hold\<close>

lemma validateAndPrepareObject_JObj:
  "validateAndPrepareObject (JObj kvs) =
     Inr (filter (\<lambda>kv. snd kv \<noteq> JUndefined \<and> snd kv \<noteq> JNull)
            (map (\<lambda>kv. (fst kv, jsonCopy (snd kv))) (filter (\<lambda>kv. snd kv \<noteq> JUndefined) kvs)))"
  by (simp add: validateAndPrepareObject_def)

lemma validated_distinct:
  "distinct (map fst kvs) \<Longrightarrow> validateAndPrepareObject (JObj kvs) = Inr vo \<Longrightarrow>
     distinct (map fst vo)"
  by (auto simp: validateAndPrepareObject_JObj distinct_map_filter)

lemma validated_lookup:
  assumes "distinct (map fst kvs)" and "validateAndPrepareObject (JObj kvs) = Inr vo"
  shows "map_of vo k =
     (case map_of kvs k of
        None \<Rightarrow> None
      | Some v \<Rightarrow> if v = JUndefined \<or> v = JNull then None else Some (jsonCopy v))"
proof -
  let ?df = "filter (\<lambda>kv. snd kv \<noteq> JUndefined) kvs"
  let ?cp = "map (\<lambda>kv. (fst kv, jsonCopy (snd kv))) ?df"
  have vo: "vo = filter (\<lambda>kv. snd kv \<noteq> JUndefined \<and> snd kv \<noteq> JNull) ?cp"
    using assms(2) by (simp add: validateAndPrepareObject_JObj)
  have d1: "distinct (map fst ?df)"
    using assms(1) by (simp add: distinct_map_filter)
  have d2: "distinct (map fst ?cp)"
    using d1 by simp
  have "map_of ?df k =
      (case map_of kvs k of None \<Rightarrow> None | Some v \<Rightarrow> if v \<noteq> JUndefined then Some v else None)"
    using assms(1) by (simp add: lookup_filter split: option.splits)
  then have "map_of ?cp k =
      (case map_of kvs k of None \<Rightarrow> None
       | Some v \<Rightarrow> if v \<noteq> JUndefined then Some (jsonCopy v) else None)"
    by (simp add: map_of_map_snd split: option.splits)
  then show ?thesis
    using d2 by (simp add: vo lookup_filter split: option.splits)
qed

lemma flatten_distinct:
  "distinct (map fst obj) \<Longrightarrow> distinct (map fst (flattenObjectForSigning obj))"
  by (simp add: flattenObjectForSigning_def Let_def distinct_delete distinct_fold_assign
      split: option.splits)

lemma biz_content_excluded:
  "map_of (rev (filter (\<lambda>kv. fst kv \<notin> set EXCLUDE_FIELDS \<and> Q kv) es)) ''biz_content'' = None"
  by (auto simp: map_of_eq_None_iff EXCLUDE_FIELDS_def)

lemma flatten_lookup:
  "map_of (flattenObjectForSigning obj) k =
     (if k = ''biz_content'' then None
      else case (case map_of obj ''biz_content'' of
                   None \<Rightarrow> None
                 | Some bizContent \<Rightarrow>
                     if truthy bizContent \<and> typeof_object bizContent
                     then map_of (rev (filter (\<lambda>kv. fst kv \<notin> set EXCLUDE_FIELDS \<and>
                                                snd kv \<noteq> JUndefined \<and> snd kv \<noteq> JNull \<and>
                                                (fst kv \<noteq> ''__proto__'' \<or>
                                                 map_of obj ''__proto__'' \<noteq> None))
                                        (own_entries bizContent))) k
                     else None) of
             Some v \<Rightarrow> Some v
           | None \<Rightarrow> map_of obj k)"
proof (cases "map_of obj ''biz_content''")
  case None
  then show ?thesis
    by (simp add: flattenObjectForSigning_def delete_conv')
next
  case (Some bizContent)
  show ?thesis
  proof (cases "truthy bizContent \<and> typeof_object bizContent")
    case True
    let ?P = "\<lambda>kv. fst kv \<notin> set EXCLUDE_FIELDS \<and> snd kv \<noteq> JUndefined \<and> snd kv \<noteq> JNull"
    let ?fl = "AList.delete ''biz_content'' obj"
    have proto: "map_of ?fl ''__proto__'' = map_of obj ''__proto__''"
      by (simp add: delete_conv')
    have flat: "flattenObjectForSigning obj =
        fold (\<lambda>kv fl. if ?P kv then assign (fst kv) (snd kv) fl else fl) (own_entries bizContent) ?fl"
      using Some True by (simp add: flattenObjectForSigning_def Let_def)
    have same: "(\<lambda>kv. ?P kv \<and> (fst kv \<noteq> ''__proto__'' \<or> map_of ?fl ''__proto__'' \<noteq> None)) =
        (\<lambda>kv. fst kv \<notin> set EXCLUDE_FIELDS \<and> snd kv \<noteq> JUndefined \<and> snd kv \<noteq> JNull \<and>
              (fst kv \<noteq> ''__proto__'' \<or> map_of obj ''__proto__'' \<noteq> None))"
      by (auto simp: proto)
    have look: "map_of (flattenObjectForSigning obj) k' =
        (case map_of (rev (filter (\<lambda>kv. fst kv \<notin> set EXCLUDE_FIELDS \<and> snd kv \<noteq> JUndefined \<and>
                                       snd kv \<noteq> JNull \<and>
                                       (fst kv \<noteq> ''__proto__'' \<or> map_of obj ''__proto__'' \<noteq> None))
                            (own_entries bizContent))) k' of
           None \<Rightarrow> map_of ?fl k'
         | Some v \<Rightarrow> Some v)" for k'
      by (simp only: flat map_of_fold_assign same)
    show ?thesis
    proof (cases "k = ''biz_content''")
      case k: True
      have "map_of (rev (filter (\<lambda>kv. fst kv \<notin> set EXCLUDE_FIELDS \<and> snd kv \<noteq> JUndefined \<and>
                                       snd kv \<noteq> JNull \<and>
                                       (fst kv \<noteq> ''__proto__'' \<or> map_of obj ''__proto__'' \<noteq> None))
                            (own_entries bizContent))) ''biz_content'' = None"
        by (rule biz_content_excluded)
      then have "map_of (flattenObjectForSigning obj) ''biz_content'' = map_of ?fl ''biz_content''"
        by (simp only: look [of "''biz_content''"] option.case)
      with k show ?thesis
        by (simp add: delete_conv')
    next
      case k: False
      with Some True show ?thesis
        by (simp add: look delete_conv' split: option.splits)
    qed
  next
    case False
    then have "(truthy bizContent \<and> typeof_object bizContent) = False"
      by simp
    with Some show ?thesis
      by (simp add: flattenObjectForSigning_def Let_def delete_conv' del: de_Morgan_conj)
  qed
qed

text \<open>The field names and the parts depend on the flattened object only as a mapping.\<close>

lemma fieldNames_cong:
  assumes "distinct (map fst fl1)" and "distinct (map fst fl2)" and "map_of fl1 = map_of fl2"
  shows "fieldNames fl1 = fieldNames fl2"
proof -
  have "set fl1 = set fl2"
    using assms by (simp add: map_of_inject_set)
  then have "set (map fst fl1) = set (map fst fl2)"
    by simp
  then have "set (fieldNames fl1) = set (fieldNames fl2)"
    by (simp add: fieldNames_def)
  moreover have "distinct (fieldNames fl1)" "distinct (fieldNames fl2)"
    using assms(1,2) by (simp_all add: fieldNames_def)
  moreover have "sorted (fieldNames fl1)" "sorted (fieldNames fl2)"
    by (simp_all add: fieldNames_def)
  ultimately show ?thesis
    by (simp add: sorted_distinct_set_unique)
qed

lemma signParts_cong:
  assumes "distinct (map fst fl1)" and "distinct (map fst fl2)" and "map_of fl1 = map_of fl2"
  shows "signParts fl1 = signParts fl2"
  using fieldNames_cong [OF assms] assms(3) by (simp add: signParts_def property_def)


lemma biz_entries_cong:
  assumes "distinct (map fst b1)" and "distinct (map fst b2)" and "map_of b1 = map_of b2"
  shows "map_of (rev (filter P (own_entries (jsonCopy (JObj b1))))) =
         map_of (rev (filter P (own_entries (jsonCopy (JObj b2)))))"
proof -
  let ?e = "\<lambda>b. filter P (map (\<lambda>kv. (fst kv, jsonCopy (snd kv)))
                          (filter (\<lambda>kv. snd kv \<noteq> JUndefined) b))"
  have s: "set b1 = set b2"
    using assms by (simp add: map_of_inject_set)
  have d: "distinct (map fst (rev (?e b)))" if "distinct (map fst b)" for b
  proof -
    from that have "distinct (map fst (filter (\<lambda>kv. snd kv \<noteq> JUndefined) b))"
      by (rule distinct_map_filter)
    then have "distinct (map fst (map (\<lambda>kv. (fst kv, jsonCopy (snd kv)))
                          (filter (\<lambda>kv. snd kv \<noteq> JUndefined) b)))"
      by simp
    then have "distinct (map fst (?e b))"
      by (rule distinct_map_filter)
    then show ?thesis
      by (simp add: rev_map [symmetric])
  qed
  have "set (rev (?e b1)) = set (rev (?e b2))"
    using s by simp
  then have "map_of (rev (?e b1)) = map_of (rev (?e b2))"
    using d [OF assms(1)] d [OF assms(2)] by (simp only: map_of_inject_set)
  then show ?thesis
    by simp
qed

text \<open>
  Claim C2, as the code has it. The sign string does not depend on the order in which the
  keys of the request, or the keys of its \<open>biz_content\<close> object, were inserted: two requests
  with distinct keys that agree as mappings on every key other than \<open>biz_content\<close>, and
  whose \<open>biz_content\<close> values are the same value or are objects that agree as mappings,
  have the same sign string (or fail with the same error). The values of all other fields,
  and of the fields inside \<open>biz_content\<close>, are the same values on both sides, key order
  included: an object-valued field is written by \<open>JSON.stringify\<close>, which follows the
  insertion order of its keys.
\<close>

theorem signOriginStr_key_order_independent:
  assumes d1: "distinct (map fst kvs1)" and d2: "distinct (map fst kvs2)"
    and top: "\<forall>k. k \<noteq> ''biz_content'' \<longrightarrow> map_of kvs1 k = map_of kvs2 k"
    and biz: "map_of kvs1 ''biz_content'' = map_of kvs2 ''biz_content'' \<or>
              (\<exists>b1 b2. map_of kvs1 ''biz_content'' = Some (JObj b1) \<and>
                       map_of kvs2 ''biz_content'' = Some (JObj b2) \<and>
                       distinct (map fst b1) \<and> distinct (map fst b2) \<and> map_of b1 = map_of b2)"
  shows "signOriginStr (JObj kvs1) = signOriginStr (JObj kvs2)"
proof -
  obtain vo1 where vo1: "validateAndPrepareObject (JObj kvs1) = Inr vo1"
    by (simp add: validateAndPrepareObject_JObj)
  obtain vo2 where vo2: "validateAndPrepareObject (JObj kvs2) = Inr vo2"
    by (simp add: validateAndPrepareObject_JObj)
  note l1 = validated_lookup [OF d1 vo1] and l2 = validated_lookup [OF d2 vo2]
  have other: "map_of vo1 k = map_of vo2 k" if "k \<noteq> ''biz_content''" for k
    using that top by (simp add: l1 l2)
  have proto: "map_of vo1 ''__proto__'' = map_of vo2 ''__proto__''"
    by (rule other) simp
  let ?P = "\<lambda>vo kv. fst kv \<notin> set EXCLUDE_FIELDS \<and> snd kv \<noteq> JUndefined \<and> snd kv \<noteq> JNull \<and>
              (fst kv \<noteq> ''__proto__'' \<or> map_of vo ''__proto__'' \<noteq> None)"
  let ?B = "\<lambda>vo k. case map_of vo ''biz_content'' of
              None \<Rightarrow> None
            | Some bizContent \<Rightarrow>
                if truthy bizContent \<and> typeof_object bizContent
                then map_of (rev (filter (?P vo) (own_entries bizContent))) k
                else None"
  have same: "?P vo1 = ?P vo2"
    by (simp only: proto)
  have inner: "?B vo1 k = ?B vo2 k" for k
    using biz
  proof
    assume "map_of kvs1 ''biz_content'' = map_of kvs2 ''biz_content''"
    then have "map_of vo1 ''biz_content'' = map_of vo2 ''biz_content''"
      by (simp add: l1 l2)
    then show ?thesis
      by (simp only: same)
  next
    assume "\<exists>b1 b2. map_of kvs1 ''biz_content'' = Some (JObj b1) \<and>
        map_of kvs2 ''biz_content'' = Some (JObj b2) \<and>
        distinct (map fst b1) \<and> distinct (map fst b2) \<and> map_of b1 = map_of b2"
    then obtain b1 b2 where b1: "map_of kvs1 ''biz_content'' = Some (JObj b1)"
      and b2: "map_of kvs2 ''biz_content'' = Some (JObj b2)"
      and db: "distinct (map fst b1)" "distinct (map fst b2)" and eq: "map_of b1 = map_of b2"
      by blast
    have v1: "map_of vo1 ''biz_content'' = Some (jsonCopy (JObj b1))"
      using b1 by (simp add: l1)
    have v2: "map_of vo2 ''biz_content'' = Some (jsonCopy (JObj b2))"
      using b2 by (simp add: l2)
    have t: "truthy (jsonCopy (JObj b)) \<and> typeof_object (jsonCopy (JObj b))" for b
      by simp
    have "?B vo1 k = map_of (rev (filter (?P vo1) (own_entries (jsonCopy (JObj b1))))) k"
      by (simp only: v1 option.case t if_True simp_thms)
    also have "\<dots> = map_of (rev (filter (?P vo1) (own_entries (jsonCopy (JObj b2))))) k"
      by (simp only: biz_entries_cong [OF db eq])
    also have "\<dots> = ?B vo2 k"
      by (simp only: v2 option.case t if_True simp_thms same)
    finally show ?thesis .
  qed
  have "map_of (flattenObjectForSigning vo1) k = map_of (flattenObjectForSigning vo2) k" for k
  proof (cases "k = ''biz_content''")
    case True
    then show ?thesis
      by (simp add: flatten_lookup)
  next
    case False
    have "map_of (flattenObjectForSigning vo1) k =
        (case ?B vo1 k of Some v \<Rightarrow> Some v | None \<Rightarrow> map_of vo1 k)"
      using False by (simp only: flatten_lookup if_False)
    also have "\<dots> = (case ?B vo2 k of Some v \<Rightarrow> Some v | None \<Rightarrow> map_of vo2 k)"
      by (simp only: inner [of k] other [OF False])
    also have "\<dots> = map_of (flattenObjectForSigning vo2) k"
      using False by (simp only: flatten_lookup if_False)
    finally show ?thesis .
  qed
  then have m: "map_of (flattenObjectForSigning vo1) = map_of (flattenObjectForSigning vo2)"
    by (rule ext)
  have f1: "distinct (map fst (flattenObjectForSigning vo1))"
    using validated_distinct [OF d1 vo1] by (rule flatten_distinct)
  have f2: "distinct (map fst (flattenObjectForSigning vo2))"
    using validated_distinct [OF d2 vo2] by (rule flatten_distinct)
  show ?thesis
    by (simp add: signOriginStr_def vo1 vo2 Let_def fieldNames_cong [OF f1 f2 m]
        signParts_cong [OF f1 f2 m])
qed

text \<open>The same request with its top-level keys and its \<open>biz_content\<close> keys in two
  orders.\<close>

theorem signOriginStr_key_order_independent_witness:
  "signOriginStr
     (JObj [(''timestamp'', JStr ''17''), (''nonce_str'', JStr ''N1''),
            (''biz_content'', JObj [(''title'', JStr ''Sub''), (''appid'', JStr ''A'')])]) =
   signOriginStr
     (JObj [(''biz_content'', JObj [(''appid'', JStr ''A''), (''title'', JStr ''Sub'')]),
            (''nonce_str'', JStr ''N1''), (''timestamp'', JStr ''17'')]) \<and>
   signOriginStr
     (JObj [(''timestamp'', JStr ''17''), (''nonce_str'', JStr ''N1''),
            (''biz_content'', JObj [(''title'', JStr ''Sub''), (''appid'', JStr ''A'')])]) =
   Inr ''appid=A&nonce_str=N1&timestamp=17&title=Sub''"
proof -
  let ?k1 = "[(''timestamp'', JStr ''17''), (''nonce_str'', JStr ''N1''),
              (''biz_content'', JObj [(''title'', JStr ''Sub''), (''appid'', JStr ''A'')])]"
  let ?k2 = "[(''biz_content'', JObj [(''appid'', JStr ''A''), (''title'', JStr ''Sub'')]),
              (''nonce_str'', JStr ''N1''), (''timestamp'', JStr ''17'')]"
  have d1: "distinct (map fst ?k1)" and d2: "distinct (map fst ?k2)"
    by simp_all
  have top: "\<forall>k. k \<noteq> ''biz_content'' \<longrightarrow> map_of ?k1 k = map_of ?k2 k"
    by simp
  have "map_of [(''title'', JStr ''Sub''), (''appid'', JStr ''A'')] =
        map_of [(''appid'', JStr ''A''), (''title'', JStr ''Sub'')]"
    by (rule ext) simp
  then have biz: "map_of ?k1 ''biz_content'' = map_of ?k2 ''biz_content'' \<or>
      (\<exists>b1 b2. map_of ?k1 ''biz_content'' = Some (JObj b1) \<and>
               map_of ?k2 ''biz_content'' = Some (JObj b2) \<and>
               distinct (map fst b1) \<and> distinct (map fst b2) \<and> map_of b1 = map_of b2)"
    by simp
  have v: "signOriginStr (JObj ?k1) = Inr ''appid=A&nonce_str=N1&timestamp=17&title=Sub''"
    by code_simp
  show ?thesis
    using signOriginStr_key_order_independent [OF d1 d2 top biz] v by simp
qed

text \<open>
  Claim C2 as stated includes key order inside nested object-valued fields, and fails there:
  the field \<open>a\<close> holds the same mapping in both requests, with its keys inserted in a
  different order, and the two sign strings differ
  (\<open>a={"x":1,"y":2}\<close> against \<open>a={"y":2,"x":1}\<close>).
\<close>

theorem signOriginStr_nested_key_order_counterexample:
  "map_of [(''x'', JNum ''1''), (''y'', JNum ''2'')] =
     map_of [(''y'', JNum ''2''), (''x'', JNum ''1'')] \<and>
   signOriginStr (JObj [(''a'', JObj [(''x'', JNum ''1''), (''y'', JNum ''2'')])]) \<noteq>
   signOriginStr (JObj [(''a'', JObj [(''y'', JNum ''2''), (''x'', JNum ''1'')])])"
proof -
  have "map_of [(''x'', JNum ''1''), (''y'', JNum ''2'')] =
        map_of [(''y'', JNum ''2''), (''x'', JNum ''1'')]"
    by (rule ext) simp
  moreover have "signOriginStr (JObj [(''a'', JObj [(''x'', JNum ''1''), (''y'', JNum ''2'')])]) \<noteq>
      signOriginStr (JObj [(''a'', JObj [(''y'', JNum ''2''), (''x'', JNum ''1'')])])"
    by code_simp
  ultimately show ?thesis by simp
qed

text \<open>
  Claim C4. Whenever a sign string is produced, it is the parts \<open>key=value\<close> of the field
  names joined by \<open>&\<close>, and none of \<open>sign\<close>, \<open>sign_type\<close>, \<open>header\<close>,
  \<open>refund_info\<close>, \<open>openType\<close>, \<open>raw_request\<close> and \<open>biz_content\<close> is among the field
  names, wherever in the request (at the top level or inside \<open>biz_content\<close>) a field of
  that name occurs.
\<close>

theorem excluded_fields_never_signed:
  assumes "signOriginStr requestObject = Inr s"
  shows "\<exists>validatedObject.
           validateAndPrepareObject requestObject = Inr validatedObject \<and>
           s = join ''&''
                 (map (\<lambda>key. key @ ''='' @
                         stringValue (property (flattenObjectForSigning validatedObject) key))
                    (fieldNames (flattenObjectForSigning validatedObject))) \<and>
           (\<forall>key\<in>set (fieldNames (flattenObjectForSigning validatedObject)).
              key \<notin> {''sign'', ''sign_type'', ''header'', ''refund_info'', ''openType'',
                      ''raw_request'', ''biz_content''})"
proof (cases "validateAndPrepareObject requestObject")
  case (Inl e)
  with assms show ?thesis
    by (simp add: signOriginStr_def)
next
  case (Inr validatedObject)
  with assms have "s = join ''&'' (signParts (flattenObjectForSigning validatedObject))"
    by (simp add: signOriginStr_def Let_def split: if_splits)
  moreover have "\<forall>key\<in>set (fieldNames (flattenObjectForSigning validatedObject)).
      key \<notin> set EXCLUDE_FIELDS"
    by (simp add: fieldNames_def)
  ultimately show ?thesis
    using Inr by (simp add: signParts_def EXCLUDE_FIELDS_def)
qed

text \<open>A request with every excluded name at the top level or inside \<open>biz_content\<close>.\<close>

theorem excluded_fields_never_signed_witness:
  "signOriginStr
     (JObj [(''sign'', JStr ''S''), (''a'', JNum ''1''), (''header'', JObj [(''h'', JNum ''0'')]),
            (''biz_content'',
               JObj [(''sign'', JStr ''x''), (''b'', JNum ''2''), (''openType'', JStr ''o''),
                     (''biz_content'', JStr ''inner''), (''refund_info'', JStr ''r'')]),
            (''sign_type'', JStr ''SHA256WithRSA''), (''raw_request'', JStr ''rr'')]) =
   Inr ''a=1&b=2''"
proof -
  let ?req = "JObj [(''sign'', JStr ''S''), (''a'', JNum ''1''), (''header'', JObj [(''h'', JNum ''0'')]),
            (''biz_content'',
               JObj [(''sign'', JStr ''x''), (''b'', JNum ''2''), (''openType'', JStr ''o''),
                     (''biz_content'', JStr ''inner''), (''refund_info'', JStr ''r'')]),
            (''sign_type'', JStr ''SHA256WithRSA''), (''raw_request'', JStr ''rr'')]"
  have v: "signOriginStr ?req = Inr ''a=1&b=2''"
    by code_simp
  from excluded_fields_never_signed [OF v] show ?thesis
    by (simp add: v)
qed




section \<open>Properties of \<open>verifySignature\<close>\<close>

text \<open>
  Claim C7, as the code has it. When \<open>text\<close> is a string, or is missing (falsy),
  \<open>verifySignature\<close> does not throw, whatever the types of \<open>signature\<close> and
  \<open>publicKey\<close> and whatever the library does: it returns a boolean, and it returns
  \<open>false\<close> when a parameter is missing and when the library throws.
\<close>

theorem verifySignature_returns_on_string_text:
  assumes "(\<exists>s. text = JStr s) \<or> \<not> truthy text"
  shows "(\<exists>b. verifySignature lib text signature publicKey = Inr b) \<and>
         (\<not> truthy text \<or> \<not> truthy signature \<or> \<not> truthy publicKey \<longrightarrow>
            verifySignature lib text signature publicKey = Inr False) \<and>
         (\<forall>message. lib = Inl message \<longrightarrow>
            verifySignature lib text signature publicKey = Inr False)"
  using assms
  by (cases lib) (auto simp: verifySignature_def)

text \<open>A string \<open>text\<close> with a signature of the wrong type and a key the library rejects,
  and with a missing signature.\<close>

theorem verifySignature_returns_on_string_text_witness:
  "verifySignature (Inl ''init failed'') (JStr ''a=1&b=2'') (JNum ''7'') (JStr ''not a key'') =
     Inr False \<and>
   verifySignature (Inl ''init failed'') (JStr ''a=1&b=2'') JUndefined (JObj []) = Inr False"
proof -
  have "(\<exists>s. JStr ''a=1&b=2'' = JStr s) \<or> \<not> truthy (JStr ''a=1&b=2'')"
    by simp
  from verifySignature_returns_on_string_text [OF this] show ?thesis
    by simp
qed

text \<open>
  Claim C7 as stated includes a \<open>text\<close> of the wrong type, and fails there: with the
  number 123 as \<open>text\<close> and a key on which the library throws, the handler's
  \<open>text.substring(0, 100)\<close> throws, and the error leaves \<open>verifySignature\<close>.
\<close>

theorem verifySignature_throws_counterexample:
  "verifySignature (Inl ''init failed'') (JNum ''123'') (JStr ''abc'') (JStr ''not a key'') =
     Inl ''text.substring is not a function''"
  by (simp add: verifySignature_def)

section \<open>Properties of \<open>createNonceStr\<close>\<close>

text \<open>The numbers below 256 with a given remainder modulo 36: eight of them for the
  remainders 0 to 3, seven for the others.\<close>

lemma residues:
  assumes "(c::nat) < 36"
  shows "{n. n < 256 \<and> n mod 36 = c} = (\<lambda>k. 36 * k + c) ` {k. k < (if c < 4 then 8 else 7)}"
proof (intro equalityI subsetI)
  fix n assume "n \<in> {n. n < 256 \<and> n mod 36 = c}"
  then have n: "n < 256" "n mod 36 = c" by simp_all
  have "36 * (n div 36) + n mod 36 = n"
    by (rule mult_div_mod_eq)
  with n have q: "n = 36 * (n div 36) + c" by simp
  have "n div 36 < (if c < 4 then 8 else 7)"
  proof (cases "c < 4")
    case True
    with q n(1) show ?thesis by simp
  next
    case False
    with q n(1) show ?thesis by simp
  qed
  with q show "n \<in> (\<lambda>k. 36 * k + c) ` {k. k < (if c < 4 then 8 else 7)}"
    by blast
next
  fix n assume "n \<in> (\<lambda>k. 36 * k + c) ` {k. k < (if c < 4 then 8 else 7)}"
  then obtain k where "n = 36 * k + c" "k < (if c < 4 then 8 else 7)" by blast
  with assms show "n \<in> {n. n < 256 \<and> n mod 36 = c}"
    by (auto split: if_splits)
qed

lemma card_residues:
  assumes "(c::nat) < 36"
  shows "card {n. n < 256 \<and> n mod 36 = c} = (if c < 4 then 8 else 7)"
proof -
  have "inj_on (\<lambda>k. 36 * k + c) {k. k < (if c < 4 then 8 else 7)}"
    by (rule inj_onI) simp
  then have "card ((\<lambda>k. 36 * k + c) ` {k. k < (if c < 4 then 8 else 7)}) =
      card {k. k < (if c < 4 then 8 else 7 :: nat)}"
    by (rule card_image)
  then show ?thesis
    by (simp add: residues [OF assms])
qed

lemma card_charIndex:
  assumes "c < 36"
  shows "card {byte. charIndex byte = c} = (if c < 4 then 8 else 7)"
proof -
  have "unat ` {byte :: 8 word. charIndex byte = c} = {n. n < 256 \<and> n mod 36 = c}"
  proof (intro equalityI subsetI)
    fix n assume "n \<in> unat ` {byte :: 8 word. charIndex byte = c}"
    then obtain b :: "8 word" where "n = unat b" "unat b mod 36 = c"
      by (auto simp: charIndex_def NONCE_CHARS_def)
    moreover have "unat b < 256"
      using unsigned_less [of b] by simp
    ultimately show "n \<in> {n. n < 256 \<and> n mod 36 = c}" by simp
  next
    fix n assume "n \<in> {n. n < 256 \<and> n mod 36 = c}"
    then have n: "n < 256" "n mod 36 = c" by simp_all
    then have "unat (word_of_nat n :: 8 word) = n"
      by (simp add: unat_of_nat)
    with n have "charIndex (word_of_nat n :: 8 word) = c"
      by (simp add: charIndex_def NONCE_CHARS_def)
    then show "n \<in> unat ` {byte :: 8 word. charIndex byte = c}"
      using \<open>unat (word_of_nat n :: 8 word) = n\<close> by (metis (mono_tags, lifting) image_eqI mem_Collect_eq)
  qed
  moreover have "inj_on unat {byte :: 8 word. charIndex byte = c}"
    by (rule inj_onI) (simp add: word_eq_iff_unsigned [where ?'a = nat])
  ultimately have "card {byte. charIndex byte = c} = card {n. n < 256 \<and> n mod 36 = c}"
    by (metis card_image)
  then show ?thesis
    by (simp add: card_residues [OF assms])
qed

lemma count_list_filter: "count_list (map f xs) c = length (filter (\<lambda>x. f x = c) xs)"
  by (induction xs) simp_all

lemma charIndex_bytes_upto:
  assumes "m \<le> 256"
  shows "map charIndex (map word_of_nat [0..<m]) = map (\<lambda>n. n mod 36) [0..<m]"
proof -
  have "charIndex (word_of_nat n) = n mod 36" if "n < m" for n
    using that assms by (simp add: charIndex_def NONCE_CHARS_def unat_of_nat)
  then show ?thesis
    by simp
qed

lemma count_residues_upto:
  "length (filter (\<lambda>n. n mod 36 = c) [0..<m]) = card {n. n < m \<and> n mod 36 = (c::nat)}"
proof -
  have "length (filter (\<lambda>n. n mod 36 = c) [0..<m]) = card ({n. n mod 36 = c} \<inter> set [0..<m])"
    by (rule distinct_length_filter) simp
  also have "{n. n mod 36 = c} \<inter> set [0..<m] = {n. n < m \<and> n mod 36 = c}"
    by auto
  finally show ?thesis .
qed

lemma count_charIndex:
  assumes "c < 36"
  shows "count_list (map charIndex (map word_of_nat [0..<256])) c = (if c < 4 then 8 else 7)"
proof -
  have le: "(256::nat) \<le> 256"
    by simp
  show ?thesis
    by (simp only: charIndex_bytes_upto [OF le] count_list_filter count_residues_upto
        card_residues [OF assms])
qed


lemma NONCE_CHARS_length: "length NONCE_CHARS = 36"
  by (simp add: NONCE_CHARS_def)

lemma NONCE_CHARS_distinct: "distinct NONCE_CHARS"
  by (simp add: NONCE_CHARS_def)

lemma charAt_in_range: "i < 36 \<Longrightarrow> charAt i = [NONCE_CHARS ! i]"
  by (simp add: charAt_def NONCE_CHARS_length)

lemma charIndex_less: "charIndex byte < 36"
  by (simp add: charIndex_def NONCE_CHARS_length)

lemma concat_singletons: "concat (map (\<lambda>i. [f i]) xs) = map f xs"
  by (induction xs) simp_all

lemma fallback_nonce:
  assumes "\<forall>i<n. draws i < 36"
  shows "concat (map (\<lambda>i. charAt (draws i)) [0..<n]) = map (\<lambda>i. NONCE_CHARS ! draws i) [0..<n]"
proof -
  have "map (\<lambda>i. charAt (draws i)) [0..<n] = map (\<lambda>i. [NONCE_CHARS ! draws i]) [0..<n]"
    using assms by (simp add: charAt_in_range)
  then show ?thesis
    by (simp only: concat_singletons)
qed

lemma secure_nonce:
  assumes "length bytes = n"
  shows "concat (map (\<lambda>i. if i < length bytes then charAt (charIndex (bytes ! i)) else ''undefined'')
                   [0..<n]) =
         map (\<lambda>byte. NONCE_CHARS ! charIndex byte) bytes"
proof -
  have "map (\<lambda>i. if i < length bytes then charAt (charIndex (bytes ! i)) else ''undefined'') [0..<n] =
      map (\<lambda>i. [NONCE_CHARS ! charIndex (bytes ! i)]) [0..<n]"
    using assms by (simp add: charAt_in_range charIndex_less)
  then have "concat (map (\<lambda>i. if i < length bytes then charAt (charIndex (bytes ! i))
                                else ''undefined'') [0..<n]) =
      map (\<lambda>i. NONCE_CHARS ! charIndex (bytes ! i)) [0..<n]"
    by (simp only: concat_singletons)
  also have "\<dots> = map (\<lambda>byte. NONCE_CHARS ! charIndex byte) (map (\<lambda>i. bytes ! i) [0..<n])"
    by simp
  also have "map (\<lambda>i. bytes ! i) [0..<n] = bytes"
    unfolding assms [symmetric] by (rule map_nth)
  finally show ?thesis .
qed

text \<open>
  Claim C9, as the code has it. For a length that is not negative (32 when the argument is
  absent), with a buffer of that many bytes when \<open>crypto.randomBytes\<close> succeeds and with
  fallback indices below 36, \<open>createNonceStr\<close> returns that many characters, all of them
  among the 36 distinct characters of \<open>NONCE_CHARS\<close>. With the secure source, each character
  is \<open>NONCE_CHARS[byte % 36]\<close> for the byte at its position. Of the 256 values of a byte,
  eight select each of the first four characters and seven select each of the other 32: a
  uniformly drawn byte does not select the characters uniformly.
\<close>

theorem createNonceStr_length_alphabet:
  assumes len: "len = (case lengthArg of None \<Rightarrow> 32 | Some n \<Rightarrow> n)" and nonneg: "0 \<le> len"
    and buffer: "\<forall>bytes. randomBytes = Some bytes \<longrightarrow> length bytes = nat len"
    and range: "\<forall>i<nat len. draws i < 36"
  shows "length (createNonceStr randomBytes draws lengthArg) = nat len \<and>
         set (createNonceStr randomBytes draws lengthArg) \<subseteq> set NONCE_CHARS \<and>
         length NONCE_CHARS = 36 \<and> distinct NONCE_CHARS \<and>
         (\<forall>bytes. randomBytes = Some bytes \<longrightarrow>
            createNonceStr randomBytes draws lengthArg =
              map (\<lambda>byte. NONCE_CHARS ! charIndex byte) bytes) \<and>
         (\<forall>c<36. card {byte. charIndex byte = c} = (if c < 4 then 8 else 7)) \<and>
         (\<forall>c<36. count_list (map charIndex (map word_of_nat [0..<256])) c =
                   (if c < 4 then 8 else 7))"
proof -
  have len': "(case lengthArg of None \<Rightarrow> DEFAULT_NONCE_LENGTH | Some n \<Rightarrow> n) = len"
    by (simp add: len DEFAULT_NONCE_LENGTH_def split: option.splits)
  let ?fallback = "map (\<lambda>i. NONCE_CHARS ! draws i) [0..<nat len]"
  have fb: "concat (map (\<lambda>i. charAt (draws i)) [0..<nat len]) = ?fallback"
    using range by (rule fallback_nonce)
  have fb_set: "set ?fallback \<subseteq> set NONCE_CHARS"
    using range by (auto simp: NONCE_CHARS_length)
  have sec_set: "set (map (\<lambda>byte. NONCE_CHARS ! charIndex byte) bytes) \<subseteq> set NONCE_CHARS" for bytes
    using charIndex_less by (auto simp: NONCE_CHARS_length)
  show ?thesis
  proof (cases randomBytes)
    case None
    then have "createNonceStr randomBytes draws lengthArg = ?fallback"
      by (simp add: createNonceStr_def len' Let_def fb)
    with fb_set None show ?thesis
      using card_charIndex count_charIndex NONCE_CHARS_length NONCE_CHARS_distinct by simp
  next
    case (Some bytes)
    with buffer have n: "length bytes = nat len" by simp
    have empty: "bytes = []" if "len \<le> 0"
    proof -
      from that have "nat len = 0" by simp
      with n have "length bytes = 0" by (simp only:)
      then show ?thesis by simp
    qed
    have "createNonceStr randomBytes draws lengthArg =
        map (\<lambda>byte. NONCE_CHARS ! charIndex byte) bytes"
    proof (cases "len \<le> 0")
      case True
      then show ?thesis
        by (simp add: createNonceStr_def len' Let_def fb empty)
    next
      case False
      then show ?thesis
        by (simp add: createNonceStr_def len' Let_def Some secure_nonce [OF n])
    qed
    with sec_set [of bytes] n Some show ?thesis
      using card_charIndex count_charIndex NONCE_CHARS_length NONCE_CHARS_distinct by simp
  qed
qed

text \<open>Four bytes from the secure source, and four rounds of the fallback.\<close>

theorem createNonceStr_length_alphabet_witness:
  "createNonceStr (Some [0, 35, 36, 255]) (\<lambda>i. 0) (Some 4) = ''A9AD'' \<and>
   createNonceStr None (\<lambda>i. 7) (Some 4) = ''HHHH''"
proof -
  have h: "(4::int) = (case Some 4 of None \<Rightarrow> 32 | Some n \<Rightarrow> n)" "(0::int) \<le> 4"
    by simp_all
  have r0: "\<forall>i<nat 4. (\<lambda>i. 0::nat) i < 36" and r7: "\<forall>i<nat 4. (\<lambda>i. 7::nat) i < 36"
    by simp_all
  have b1: "\<forall>bytes. Some [0, 35, 36, 255 :: 8 word] = Some bytes \<longrightarrow> length bytes = nat 4"
    by auto
  have b2: "\<forall>bytes. (None :: 8 word list option) = Some bytes \<longrightarrow> length bytes = nat 4"
    by simp
  have c: "map (\<lambda>byte. NONCE_CHARS ! charIndex byte) [0, 35, 36, 255] = ''A9AD''"
    by (simp add: charIndex_def NONCE_CHARS_def)
  have d: "createNonceStr None (\<lambda>i. 7) (Some 4) = ''HHHH''"
    by code_simp
  from createNonceStr_length_alphabet [OF h b1 r0]
  have "createNonceStr (Some [0, 35, 36, 255]) (\<lambda>i. 0) (Some 4) =
      map (\<lambda>byte. NONCE_CHARS ! charIndex byte) [0, 35, 36, 255]"
    by blast
  moreover from createNonceStr_length_alphabet [OF h b2 r7]
  have "length (createNonceStr None (\<lambda>i. 7) (Some 4)) = nat 4"
    by blast
  ultimately show ?thesis
    using c d by simp
qed

text \<open>
  Claim C9 as stated says that each character is selected uniformly. Among the 256 byte values
  the number that select \<open>A\<close> (index 0) differs from the number that select \<open>E\<close>
  (index 4).
\<close>

theorem createNonceStr_not_uniform_counterexample:
  "count_list (map charIndex (map word_of_nat [0..<256])) 0 \<noteq>
   count_list (map charIndex (map word_of_nat [0..<256])) 4"
proof -
  have "count_list (map charIndex (map word_of_nat [0..<256])) 0 = 8"
    using count_charIndex [of 0] by simp
  moreover have "count_list (map charIndex (map word_of_nat [0..<256])) 4 = 7"
    using count_charIndex [of 4] by simp
  ultimately show ?thesis
    by simp
qed

section \<open>Properties of order creation\<close>

lemma double_le_0_zero: "double_le_0 0"
  by (simp add: double_le_0_def)

lemma double_positive: "1 \<le> v \<Longrightarrow> \<not> double_le_0 v"
proof -
  assume v: "1 \<le> v"
  have "(1::rat) \<le> 2 ^ 1075"
    by (rule one_le_power) simp
  then have "1 / 2 ^ 1075 \<le> (1::rat)"
    by (simp add: divide_le_eq)
  moreover have "1 / 2 ^ 1075 \<noteq> (1::rat)"
  proof
    assume "1 / 2 ^ 1075 = (1::rat)"
    then have "(2::rat) ^ 1075 = 1"
      by (simp add: divide_eq_eq)
    moreover have "(1::rat) < 2 ^ 1075"
      by (rule one_less_power) simp_all
    ultimately show False by simp
  qed
  ultimately have "1 / 2 ^ 1075 < (1::rat)"
    by simp
  with v show ?thesis
    by (simp add: double_le_0_def)
qed

lemma double_within_limit: "v \<le> 1000000 \<Longrightarrow> \<not> double_gt_1000000 v"
proof -
  assume v: "v \<le> 1000000"
  have "(0::rat) \<le> 1 / 2 ^ 34"
    by simp
  with v have "v \<le> 1000000 + 1 / 2 ^ 34"
    by linarith
  then show ?thesis
    by (simp only: double_gt_1000000_def not_less)
qed

lemma amount_zero_rejected: "amount_errors (JNum ''0'') = [''Amount must be greater than 0'']"
proof -
  have "parseFloat (JNum ''0'') = Finite 0"
    by code_simp
  then show ?thesis
    by (simp add: amount_errors_def double_le_0_zero)
qed

lemma amount_abc_rejected: "amount_errors (JStr ''abc'') = [''Amount must be a valid number'']"
proof -
  have "parseFloat (JStr ''abc'') = NaN"
    by code_simp
  then show ?thesis
    by (simp add: amount_errors_def)
qed

lemma title_empty_rejected: "title_errors (JStr []) = [''Valid title is required'']"
  by (simp add: title_errors_def)

text \<open>
  Claim C8. When validation fails, \<open>createOrder\<close> answers with status 400, the result
  code \<open>VALIDATION_ERROR\<close> and the list of the errors found, and has called neither the
  token service nor anything that signs; a run in which \<open>requestCreateOrder\<close> or
  \<open>createRawRequestString\<close> is called is a run whose request was valid. The amount 0 is
  rejected whatever the title is, the amount \<open>"abc"\<close> is rejected whatever the title is,
  and the empty title is rejected whatever the amount is.
\<close>

theorem createOrder_validation_gate:
  "(\<not> isValid (validateOrderRequest title amount) \<longrightarrow>
      createOrder env title amount =
        (\<lparr>status = 400,
          body = [(''result_code'', JStr ''VALIDATION_ERROR''),
                  (''result_msg'', JStr ''Invalid request parameters''),
                  (''errors'', JArr (map JStr (errors (validateOrderRequest title amount)))),
                  (''timestamp'', JStr (responseTimestamp env)),
                  (''request_id'', JStr (requestId env))]\<rparr>, [])) \<and>
   (RequestCreateOrder \<in> set (snd (createOrder env title amount)) \<or>
    CreateRawRequestString \<in> set (snd (createOrder env title amount)) \<longrightarrow>
      isValid (validateOrderRequest title amount)) \<and>
   (\<not> isValid (validateOrderRequest title (JNum ''0'')) \<and>
    ''Amount must be greater than 0'' \<in> set (errors (validateOrderRequest title (JNum ''0'')))) \<and>
   (\<not> isValid (validateOrderRequest title (JStr ''abc'')) \<and>
    ''Amount must be a valid number'' \<in> set (errors (validateOrderRequest title (JStr ''abc'')))) \<and>
   (\<not> isValid (validateOrderRequest (JStr []) amount) \<and>
    ''Valid title is required'' \<in> set (errors (validateOrderRequest (JStr []) amount)))"
proof -
  have gate: "createOrder env title amount =
        (\<lparr>status = 400,
          body = [(''result_code'', JStr ''VALIDATION_ERROR''),
                  (''result_msg'', JStr ''Invalid request parameters''),
                  (''errors'', JArr (map JStr (errors (validateOrderRequest title amount)))),
                  (''timestamp'', JStr (responseTimestamp env)),
                  (''request_id'', JStr (requestId env))]\<rparr>, [])"
    if "\<not> isValid (validateOrderRequest title amount)"
    using that by (simp add: createOrder_def Let_def)
  have reached: "isValid (validateOrderRequest title amount)"
    if "RequestCreateOrder \<in> set (snd (createOrder env title amount)) \<or>
        CreateRawRequestString \<in> set (snd (createOrder env title amount))"
  proof (rule ccontr)
    assume "\<not> isValid (validateOrderRequest title amount)"
    then have "snd (createOrder env title amount) = []"
      by (simp add: gate)
    with that show False by simp
  qed
  have zero: "\<not> isValid (validateOrderRequest title (JNum ''0'')) \<and>
      ''Amount must be greater than 0'' \<in> set (errors (validateOrderRequest title (JNum ''0'')))"
    by (simp add: validateOrderRequest_def Let_def amount_zero_rejected)
  have abc: "\<not> isValid (validateOrderRequest title (JStr ''abc'')) \<and>
      ''Amount must be a valid number'' \<in> set (errors (validateOrderRequest title (JStr ''abc'')))"
    by (simp add: validateOrderRequest_def Let_def amount_abc_rejected)
  have empty: "\<not> isValid (validateOrderRequest (JStr []) amount) \<and>
      ''Valid title is required'' \<in> set (errors (validateOrderRequest (JStr []) amount))"
    by (simp add: validateOrderRequest_def Let_def title_empty_rejected)
  show ?thesis
    using gate reached zero abc empty by blast
qed

text \<open>The amount 0 with a good title: the response and no call; and a valid request, which
  goes on to the three calls.\<close>

theorem createOrder_validation_gate_witness:
  "createOrder
     \<lparr>settings = \<lparr>merchantAppId = ''A1'', merchantCode = ''M1'', privateKey = ''k''\<rparr>,
      requestId = ''REQ1'', responseTimestamp = ''1700000000'', processedAt = ''2023'',
      tokenOutcome = Inr (JObj [(''token'', JStr ''Bearer t'')]),
      orderOutcome = Inr (JObj [(''result_code'', JStr ''0''),
                                (''biz_content'', JObj [(''prepay_id'', JStr ''p1'')])]),
      rawLib = Inr ''c2ln'', rawNonce = ''N1'', rawTimestamp = ''1700000001''\<rparr>
     (JStr ''Sub'') (JNum ''0'') =
   (\<lparr>status = 400,
     body = [(''result_code'', JStr ''VALIDATION_ERROR''),
             (''result_msg'', JStr ''Invalid request parameters''),
             (''errors'', JArr [JStr ''Amount must be greater than 0'']),
             (''timestamp'', JStr ''1700000000''),
             (''request_id'', JStr ''REQ1'')]\<rparr>, []) \<and>
   snd (createOrder
     \<lparr>settings = \<lparr>merchantAppId = ''A1'', merchantCode = ''M1'', privateKey = ''k''\<rparr>,
      requestId = ''REQ1'', responseTimestamp = ''1700000000'', processedAt = ''2023'',
      tokenOutcome = Inr (JObj [(''token'', JStr ''Bearer t'')]),
      orderOutcome = Inr (JObj [(''result_code'', JStr ''0''),
                                (''biz_content'', JObj [(''prepay_id'', JStr ''p1'')])]),
      rawLib = Inr ''c2ln'', rawNonce = ''N1'', rawTimestamp = ''1700000001''\<rparr>
     (JStr ''Sub'') (JNum ''100.5'')) =
   [ApplyFabricToken, RequestCreateOrder, CreateRawRequestString]"
proof -
  let ?env = "\<lparr>settings = \<lparr>merchantAppId = ''A1'', merchantCode = ''M1'', privateKey = ''k''\<rparr>,
      requestId = ''REQ1'', responseTimestamp = ''1700000000'', processedAt = ''2023'',
      tokenOutcome = Inr (JObj [(''token'', JStr ''Bearer t'')]),
      orderOutcome = Inr (JObj [(''result_code'', JStr ''0''),
                                (''biz_content'', JObj [(''prepay_id'', JStr ''p1'')])]),
      rawLib = Inr ''c2ln'', rawNonce = ''N1'', rawTimestamp = ''1700000001''\<rparr>"
  have "title_errors (JStr ''Sub'') = []"
    by code_simp
  then have v: "validateOrderRequest (JStr ''Sub'') (JNum ''0'') =
      \<lparr>isValid = False, errors = [''Amount must be greater than 0'']\<rparr>"
    by (simp add: validateOrderRequest_def amount_zero_rejected)
  have "parseFloat (JNum ''100.5'') = Finite (201 / 2)"
    by code_simp
  then have "amount_errors (JNum ''100.5'') = []"
    by (simp add: amount_errors_def double_positive double_within_limit)
  moreover have "title_errors (JStr ''Sub'') = []"
    by code_simp
  ultimately have valid: "validateOrderRequest (JStr ''Sub'') (JNum ''100.5'') =
      \<lparr>isValid = True, errors = []\<rparr>"
    by (simp add: validateOrderRequest_def)
  have ok: "snd (createOrder ?env (JStr ''Sub'') (JNum ''100.5'')) =
      [ApplyFabricToken, RequestCreateOrder, CreateRawRequestString]"
    by (simp add: createOrder_def valid member_def property_def Let_def split: sum.splits)
  from createOrder_validation_gate [of "JStr ''Sub''" "JNum ''0''" ?env]
  have "\<not> isValid (validateOrderRequest (JStr ''Sub'') (JNum ''0'')) \<longrightarrow>
      createOrder ?env (JStr ''Sub'') (JNum ''0'') =
        (\<lparr>status = 400,
          body = [(''result_code'', JStr ''VALIDATION_ERROR''),
                  (''result_msg'', JStr ''Invalid request parameters''),
                  (''errors'', JArr (map JStr (errors (validateOrderRequest (JStr ''Sub'') (JNum ''0''))))),
                  (''timestamp'', JStr (responseTimestamp ?env)),
                  (''request_id'', JStr (requestId ?env))]\<rparr>, [])"
    by blast
  then show ?thesis
    using ok by (simp add: v)
qed

section \<open>Properties of the raw-request strings\<close>

text \<open>\<open>encodeURIComponent\<close> never shortens a string, and lengthens one that has a character
  it escapes.\<close>

lemma encodeURIComponent_length: "length s \<le> length (encodeURIComponent s)"
  by (induction s) (simp_all add: encodeURIComponent_def percent_def)

lemma encodeURIComponent_longer:
  "\<exists>c\<in>set s. \<not> uri_unreserved c \<Longrightarrow> length s < length (encodeURIComponent s)"
proof (induction s)
  case Nil
  then show ?case by simp
next
  case (Cons c s)
  have rest: "length s \<le> length (encodeURIComponent s)"
    by (rule encodeURIComponent_length)
  have split: "encodeURIComponent (c # s) = encodeURIComponent [c] @ encodeURIComponent s"
    by (simp add: encodeURIComponent_def)
  show ?case
  proof (cases "uri_unreserved c")
    case True
    with Cons.prems have "\<exists>c\<in>set s. \<not> uri_unreserved c" by simp
    then have "length s < length (encodeURIComponent s)" by (rule Cons.IH)
    moreover from True have "encodeURIComponent [c] = [c]"
      by (simp add: encodeURIComponent_def)
    ultimately show ?thesis by (simp add: split)
  next
    case False
    then have "3 \<le> length (encodeURIComponent [c])"
      by (simp add: encodeURIComponent_def percent_def)
    with rest show ?thesis by (simp add: split)
  qed
qed

text \<open>
  Claim C10. The claim holds the two \<open>createRawRequestString\<close> functions to the same
  string for the same inputs; the code does not give it. The order service passes every
  value through \<open>encodeURIComponent\<close> and the mandate order controller does not. Given the
  same configuration, nonce, time stamp and \<open>prepay_id\<close>, whenever signing succeeds with a
  signature that has a character which \<open>encodeURIComponent\<close> escapes (a base64 signature
  has \<open>+\<close>, \<open>/\<close> or \<open>=\<close>), the two functions return different strings.
\<close>

theorem createRawRequestString_twins_differ:
  assumes signed: "signRequestObject lib (rawRequestData cfg nonce_str stamp prepayId)
                     (privateKey cfg) = Inr signature"
    and escaped: "\<exists>c\<in>set signature. \<not> uri_unreserved c"
  shows "order_createRawRequestString cfg lib nonce_str stamp prepayId \<noteq>
         mandate_createRawRequestString cfg lib nonce_str stamp prepayId"
proof
  assume same: "order_createRawRequestString cfg lib nonce_str stamp prepayId =
      mandate_createRawRequestString cfg lib nonce_str stamp prepayId"
  let ?raw = "\<lambda>f. join ''&''
      [''appid='' @ f (merchantAppId cfg), ''merch_code='' @ f (merchantCode cfg),
       ''nonce_str='' @ f nonce_str, ''prepay_id='' @ f prepayId, ''timestamp='' @ f stamp,
       ''sign='' @ f signature, ''sign_type=SHA256WithRSA'']"
  from same signed have "?raw encodeURIComponent = ?raw (\<lambda>s. s)"
    by (simp add: order_createRawRequestString_def mandate_createRawRequestString_def)
  then have "length (?raw encodeURIComponent) = length (?raw (\<lambda>s. s))"
    by (rule arg_cong)
  moreover have "length (?raw (\<lambda>s. s)) < length (?raw encodeURIComponent)"
    using encodeURIComponent_length [of "merchantAppId cfg"]
      encodeURIComponent_length [of "merchantCode cfg"]
      encodeURIComponent_length [of nonce_str]
      encodeURIComponent_length [of prepayId]
      encodeURIComponent_length [of stamp]
      encodeURIComponent_longer [OF escaped]
    by simp
  ultimately show False by simp
qed

text \<open>
  The two functions on the same inputs, with a signature in base64 that ends in \<open>==\<close>, as
  the signature of a 2048-bit key does: the order service writes \<open>sign=ab%2B%2Fcd%3D%3D\<close>
  where the mandate order controller writes \<open>sign=ab+/cd==\<close>.
\<close>

theorem createRawRequestString_twins_differ_witness:
  "order_createRawRequestString
     \<lparr>merchantAppId = ''1184379249100809'', merchantCode = ''735013'', privateKey = ''k''\<rparr>
     (Inr ''ab+/cd=='') ''N0NCE'' ''1700000000'' ''0123abc'' =
   Inr ''appid=1184379249100809&merch_code=735013&nonce_str=N0NCE&prepay_id=0123abc&timestamp=1700000000&sign=ab%2B%2Fcd%3D%3D&sign_type=SHA256WithRSA'' \<and>
   mandate_createRawRequestString
     \<lparr>merchantAppId = ''1184379249100809'', merchantCode = ''735013'', privateKey = ''k''\<rparr>
     (Inr ''ab+/cd=='') ''N0NCE'' ''1700000000'' ''0123abc'' =
   Inr ''appid=1184379249100809&merch_code=735013&nonce_str=N0NCE&prepay_id=0123abc&timestamp=1700000000&sign=ab+/cd==&sign_type=SHA256WithRSA'' \<and>
   order_createRawRequestString
     \<lparr>merchantAppId = ''1184379249100809'', merchantCode = ''735013'', privateKey = ''k''\<rparr>
     (Inr ''ab+/cd=='') ''N0NCE'' ''1700000000'' ''0123abc'' \<noteq>
   mandate_createRawRequestString
     \<lparr>merchantAppId = ''1184379249100809'', merchantCode = ''735013'', privateKey = ''k''\<rparr>
     (Inr ''ab+/cd=='') ''N0NCE'' ''1700000000'' ''0123abc''"
proof -
  let ?cfg = "\<lparr>merchantAppId = ''1184379249100809'', merchantCode = ''735013'', privateKey = ''k''\<rparr>"
  have signed: "signRequestObject (Inr ''ab+/cd=='')
      (rawRequestData ?cfg ''N0NCE'' ''1700000000'' ''0123abc'') (privateKey ?cfg) = Inr ''ab+/cd==''"
    by code_simp
  have escaped: "\<exists>c\<in>set ''ab+/cd==''. \<not> uri_unreserved c"
    by (simp add: uri_unreserved_def)
  have o: "order_createRawRequestString ?cfg (Inr ''ab+/cd=='') ''N0NCE'' ''1700000000'' ''0123abc'' =
      Inr ''appid=1184379249100809&merch_code=735013&nonce_str=N0NCE&prepay_id=0123abc&timestamp=1700000000&sign=ab%2B%2Fcd%3D%3D&sign_type=SHA256WithRSA''"
    by code_simp
  have m: "mandate_createRawRequestString ?cfg (Inr ''ab+/cd=='') ''N0NCE'' ''1700000000'' ''0123abc'' =
      Inr ''appid=1184379249100809&merch_code=735013&nonce_str=N0NCE&prepay_id=0123abc&timestamp=1700000000&sign=ab+/cd==&sign_type=SHA256WithRSA''"
    by code_simp
  from createRawRequestString_twins_differ [OF signed escaped] o m show ?thesis
    by (simp only: simp_thms)
qed

end
